theory Spec2Isabelle
  imports Main "HOL-Library.Sublist"
begin

section \<open>JavaScript values\<close>

text \<open>
  The scalar values that reach the code from JSON records, from the property store and
  from literals. Numbers are modelled on the integers (ids, counts, page numbers, HTTP
  status codes) together with NaN; the model is of the integers that JavaScript holds
  exactly and prints in full, those below \<open>2^53\<close> in absolute value. A
  \<open>string\<close> is a sequence of code units, each \<open>char\<close> standing for the code unit
  of the same number.
\<close>

datatype jsval = JUndefined | JNull | JBool bool | JNum int | JNaN | JStr string

text \<open>ToBoolean: what \<open>if (!x)\<close>, \<open>x || y\<close> and \<open>x && y\<close> test.\<close>

fun truthy :: "jsval \<Rightarrow> bool" where
  "truthy JUndefined = False"
| "truthy JNull = False"
| "truthy (JBool b) = b"
| "truthy (JNum n) = (n \<noteq> 0)"
| "truthy JNaN = False"
| "truthy (JStr s) = (s \<noteq> [])"

text \<open>\<open>a || b\<close>\<close>

definition js_or :: "jsval \<Rightarrow> jsval \<Rightarrow> jsval" where
  "js_or a b = (if truthy a then a else b)"

text \<open>Decimal rendering of a number, as \<open>String(n)\<close> gives it for an integer.\<close>

fun show_nat :: "nat \<Rightarrow> string" where
  "show_nat n =
     (if n < 10 then [''0123456789'' ! n]
      else show_nat (n div 10) @ [''0123456789'' ! (n mod 10)])"

declare show_nat.simps [simp del]

definition show_int :: "int \<Rightarrow> string" where
  "show_int i = (if i < 0 then CHR ''-'' # show_nat (nat (- i)) else show_nat (nat i))"

text \<open>ToString on a primitive value: \<open>x.toString()\<close>, string concatenation, template literals.\<close>

fun js_toString :: "jsval \<Rightarrow> string" where
  "js_toString JUndefined = ''undefined''"
| "js_toString JNull = ''null''"
| "js_toString (JBool b) = (if b then ''true'' else ''false'')"
| "js_toString (JNum n) = show_int n"
| "js_toString JNaN = ''NaN''"
| "js_toString (JStr s) = s"

text \<open>\<open>s.includes(sub)\<close>: \<open>sub\<close> occurs in \<open>s\<close> as a contiguous run.\<close>

fun str_includes :: "string \<Rightarrow> string \<Rightarrow> bool" where
  "str_includes [] sub = (sub = [])"
| "str_includes (c # cs) sub = (prefix sub (c # cs) \<or> str_includes cs sub)"

section \<open>The platform\<close>

text \<open>
  What the script takes from its host and what is not written in the repository: the
  date parser behind \<open>new Date(s)\<close> (\<open>None\<close> is the time value NaN), the locale
  rendering of a valid time value, \<open>Intl.NumberFormat(..).format\<close> (\<open>None\<close> when the
  constructor or the call throws, as on an ill-formed currency code), the text that
  \<open>new Date().toLocaleString()\<close> gives at the moment of the run, and the number a
  string converts to in arithmetic (\<open>None\<close> is NaN).
\<close>

record platform =
  Date_parse :: "string \<Rightarrow> int option"
  toLocaleString :: "int \<Rightarrow> string"
  NumberFormat :: "string \<Rightarrow> jsval \<Rightarrow> string option"
  now_text :: string
  StringToNumber :: "string \<Rightarrow> int option"

section \<open>DataFormatter (Setup.js)\<close>

text \<open>
  \<open>new Date(v)\<close> for a primitive \<open>v\<close>: a string goes through the parser, any other
  value through ToNumber and TimeClip. The result is the time value, \<open>None\<close> for an
  Invalid Date. Neither the constructor nor \<open>toLocaleString\<close> throws on these
  values: on an Invalid Date \<open>toLocaleString\<close> returns the text \<open>Invalid Date\<close>.
\<close>

definition TimeClip :: "int \<Rightarrow> int option" where
  "TimeClip t = (if \<bar>t\<bar> \<le> 8640000000000000 then Some t else None)"

fun new_Date :: "platform \<Rightarrow> jsval \<Rightarrow> int option" where
  "new_Date P (JStr s) = Date_parse P s"
| "new_Date P (JNum n) = TimeClip n"
| "new_Date P (JBool b) = Some (if b then 1 else 0)"
| "new_Date P JNull = Some 0"
| "new_Date P JUndefined = None"
| "new_Date P JNaN = None"

definition Date_toLocaleString :: "platform \<Rightarrow> int option \<Rightarrow> string" where
  "Date_toLocaleString P d = (case d of None \<Rightarrow> ''Invalid Date'' | Some t \<Rightarrow> toLocaleString P t)"

text \<open>
  \<^verbatim>\<open>static formatDate(dateString) {
    if (!dateString) return '';
    try { return new Date(dateString).toLocaleString(); }
    catch (error) { return dateString; } }\<close>
  No call in the \<open>try\<close> block throws on a primitive value, so the handler has no
  branch in the model.
\<close>

definition formatDate :: "platform \<Rightarrow> jsval \<Rightarrow> string" where
  "formatDate P dateString =
     (if \<not> truthy dateString then ''''
      else Date_toLocaleString P (new_Date P dateString))"

text \<open>
  \<^verbatim>\<open>static formatCurrency(amount, currency = 'USD') {
    if (!amount) return '';
    try { return new Intl.NumberFormat('en-US', {style: 'currency', currency: currency}).format(amount); }
    catch (error) { return amount; } }\<close>
  The default applies when the argument is missing or \<open>undefined\<close>; the option
  \<open>currency\<close> is read through ToString.
\<close>

definition formatCurrency :: "platform \<Rightarrow> jsval \<Rightarrow> jsval \<Rightarrow> jsval" where
  "formatCurrency P amount currency =
     (let cur = (if currency = JUndefined then JStr ''USD'' else currency) in
      if \<not> truthy amount then JStr ''''
      else (case NumberFormat P (js_toString cur) amount of
              Some s \<Rightarrow> JStr s
            | None \<Rightarrow> amount))"

text \<open>
  White space and line terminators that \<open>trim()\<close> removes, among the code units below
  256: tab, line feed, vertical tab, form feed, carriage return, space, no-break space.
\<close>

definition is_space :: "char \<Rightarrow> bool" where
  "is_space c = (c = CHR 0x09 \<or> c = CHR 0x0A \<or> c = CHR 0x0B \<or> c = CHR 0x0C \<or> c = CHR 0x0D
                 \<or> c = CHR 0x20 \<or> c = CHR 0xA0)"

definition trim :: "string \<Rightarrow> string" where
  "trim s = rev (dropWhile is_space (rev (dropWhile is_space s)))"

text \<open>\<open>replace(/[\r\n\t]/g, ' ')\<close>, one character at a time.\<close>

definition blank_control :: "char \<Rightarrow> char" where
  "blank_control c = (if c = CHR 0x0D \<or> c = CHR 0x0A \<or> c = CHR 0x09 then CHR 0x20 else c)"

text \<open>
  \<^verbatim>\<open>static sanitizeString(str) {
    if (!str) return '';
    return str.toString().replace(/[\r\n\t]/g, ' ').trim(); }\<close>
\<close>

definition sanitizeString :: "jsval \<Rightarrow> string" where
  "sanitizeString str =
     (if \<not> truthy str then ''''
      else trim (map blank_control (js_toString str)))"

section \<open>Requests, responses and the state of a run\<close>

text \<open>
  A record of the upstream API is an object of named scalar fields; a field that is
  absent reads as \<open>undefined\<close>.
\<close>

type_synonym raw_record = "(string \<times> jsval) list"

definition field :: "raw_record \<Rightarrow> string \<Rightarrow> jsval" where
  "field r k = (case map_of r k of None \<Rightarrow> JUndefined | Some v \<Rightarrow> v)"

text \<open>
  The parsed body of a page: \<open>data\<close> is \<open>None\<close> when the field is absent or null,
  \<open>meta\<close> is \<open>None\<close> when the field is absent, \<open>links_next\<close> says whether
  \<open>responseData.links && responseData.links.next\<close> is truthy.
\<close>

record page_meta =
  current_page :: int
  last_page :: int

record page_response =
  data :: "raw_record list option"
  meta :: "page_meta option"
  links_next :: bool

text \<open>
  What \<open>UrlFetchApp.fetch\<close> gives back: a response with its status code, its text and
  what \<open>JSON.parse\<close> makes of that text (\<open>Inl\<close> the text of the error thrown when
  the text is not the JSON of an object), or an exception of the platform with its
  \<open>toString()\<close> text (a transport timeout, a DNS failure). Whether the platform hands
  a status outside 2xx over as a response or raises it as an exception is its own
  setting; the script reads the status of what it is handed, and both are answers here.
\<close>

record http_response =
  responseCode :: nat
  contentText :: string
  parsed :: "string + page_response"

datatype fetch_result = Response http_response | FetchThrows string

text \<open>The errors the scripts throw, and those thrown by the platform under them.\<close>

datatype error =
    RateLimitExceeded
  | ApiError nat string
  | ApiKeyNotFound
  | ConfigInvalid "string list"
  | Exception string

text \<open>\<open>Array.prototype.join\<close> on strings.\<close>

fun join :: "string \<Rightarrow> string list \<Rightarrow> string" where
  "join sep [] = []"
| "join sep [x] = x"
| "join sep (x # y # ys) = x @ sep @ join sep (y # ys)"

text \<open>\<open>error.toString()\<close>: the name of the class, a colon and the message.\<close>

fun error_toString :: "error \<Rightarrow> string" where
  "error_toString RateLimitExceeded = ''Error: Rate limit exceeded, max retries reached''"
| "error_toString (ApiError code body) =
     ''Error: API request failed with status '' @ show_nat code @ '': '' @ body"
| "error_toString ApiKeyNotFound = ''Error: API key not found. Please run setupScript() first.''"
| "error_toString (ConfigInvalid errors) =
     ''Error: Configuration validation failed: '' @ join '', '' errors"
| "error_toString (Exception text) = text"

text \<open>
  An HTTP GET as the scripts issue it: the URL before the query string, the query
  parameters in the order of \<open>Object.keys\<close> (the query string joins
  \<open>key=encodeURIComponent(value)\<close> with \<open>&\<close> in this order) and the bearer token.
\<close>

record request =
  url :: string
  query :: "(string \<times> jsval) list"
  bearer :: string

datatype event = Fetch request | Sleep nat

text \<open>
  The state a run threads through its calls: the answers the server will give, in the
  order of the requests; the requests issued and the delays slept (in milliseconds) so
  far; the counter \<open>requestCount\<close> of the one ApiClient of the run; the tables of the
  spreadsheet, by name; the script property \<open>UPPROMOTE_API_KEY\<close> (\<open>null\<close> when
  it is not set); the tables that the spreadsheet refuses to clear (a protected sheet),
  each with the text of the exception it raises; and the exception that opening the
  spreadsheet raises, if it does. \<open>Logger.log\<close> lines change nothing of this and are
  left out.
\<close>

type_synonym grid = "jsval list list"

record world =
  responses :: "fetch_result list"
  trace :: "event list"
  requestCount :: nat
  sheets :: "string \<rightharpoonup> grid"
  stored_key :: jsval
  refused :: "string \<rightharpoonup> string"
  open_error :: "string option"

text \<open>
  How a call ends: it returns, it throws, or it is left waiting because the server's
  answers have run out.
\<close>

datatype 'a completion = Returned 'a | Thrown error | Unanswered

definition sleep :: "nat \<Rightarrow> world \<Rightarrow> world" where
  "sleep ms w = w\<lparr>trace := trace w @ [Sleep ms]\<rparr>"

text \<open>
  \<open>{...params, limit: 100, page: page}\<close>: a key of \<open>params\<close> keeps its place and
  takes the later value, a new key goes to the end.
\<close>

fun set_prop :: "string \<Rightarrow> jsval \<Rightarrow> (string \<times> jsval) list \<Rightarrow> (string \<times> jsval) list" where
  "set_prop k v [] = [(k, v)]"
| "set_prop k v ((k', v') # ps) = (if k' = k then (k, v) # ps else (k', v') # set_prop k v ps)"

definition paginationParams :: "(string \<times> jsval) list \<Rightarrow> nat \<Rightarrow> (string \<times> jsval) list" where
  "paginationParams params page =
     set_prop ''page'' (JNum (int page)) (set_prop ''limit'' (JNum 100) params)"

text \<open>
  The part both clients share (Setup.js 439-460, Code.js 105-126): a page with records is
  appended and decides whether to go on, first by \<open>meta\<close>, then by \<open>links.next\<close>, then
  by the page being full; a page without records ends the loop. The result is
  \<open>hasMoreData\<close>, \<open>page\<close> and \<open>allData\<close> after the step.
\<close>

definition page_step :: "page_response \<Rightarrow> nat \<Rightarrow> raw_record list \<Rightarrow> bool \<times> nat \<times> raw_record list" where
  "page_step responseData page allData =
     (case data responseData of
        Some (x # xs) \<Rightarrow>
          (let hasMoreData =
                 (case meta responseData of
                    Some m \<Rightarrow> current_page m < last_page m
                  | None \<Rightarrow> if links_next responseData then True else length (x # xs) = 100)
           in (hasMoreData, page + 1, allData @ x # xs))
      | _ \<Rightarrow> (False, page, allData))"

section \<open>ApiClient (Setup.js)\<close>

text \<open>The fields the constructor sets and nothing assigns afterwards.\<close>

record ApiClient =
  baseUrl :: string
  apiKey :: string
  maxRetries :: nat

definition new_ApiClient :: "string \<Rightarrow> string \<Rightarrow> ApiClient" where
  "new_ApiClient b k = \<lparr>baseUrl = b, apiKey = k, maxRetries = 3\<rparr>"

text \<open>
  How one pass through the \<open>try\<close> block of \<open>makeRequest\<close> (lines 411-460) ends: the
  fetch is never answered, the block falls through to the loop test, it reaches the
  recursive call of line 426 (having slept the backoff), or it throws.
\<close>

datatype block_end =
    No_response
  | Falls_through bool nat "raw_record list"
  | Retry_429
  | Throws error

definition try_block ::
  "ApiClient \<Rightarrow> jsval \<Rightarrow> (string \<times> jsval) list \<Rightarrow> nat \<Rightarrow> nat \<Rightarrow> raw_record list \<Rightarrow> world
     \<Rightarrow> block_end \<times> world" where
  "try_block c endpoint params retryCount page allData w =
     (let w1 = (if requestCount w > 0 then sleep 1000 w else w);
          w2 = w1\<lparr>trace := trace w1 @
                 [Fetch \<lparr>url = baseUrl c @ js_toString endpoint,
                         query = paginationParams params page,
                         bearer = apiKey c\<rparr>]\<rparr>
      in case responses w2 of
           [] \<Rightarrow> (No_response, w2)
         | FetchThrows text # rest \<Rightarrow> (Throws (Exception text), w2\<lparr>responses := rest\<rparr>)
         | Response r # rest \<Rightarrow>
             (let w3 = w2\<lparr>responses := rest, requestCount := requestCount w2 + 1\<rparr> in
              if responseCode r = 429 then
                (if retryCount < maxRetries c
                 then (Retry_429, sleep (2 ^ retryCount * 1000) w3)
                 else (Throws RateLimitExceeded, w3))
              else if responseCode r \<noteq> 200 then
                (Throws (ApiError (responseCode r) (contentText r)), w3)
              else
                (case parsed r of
                   Inl text \<Rightarrow> (Throws (Exception text), w3)
                 | Inr responseData \<Rightarrow>
                     (case page_step responseData page allData of
                        (hasMoreData, page', allData') \<Rightarrow>
                          (Falls_through hasMoreData page' allData',
                           if hasMoreData then sleep 500 w3 else w3)))))"

text \<open>
  The \<open>while\<close> loop of \<open>makeRequest\<close> with its handler (lines 462-471). The retry of
  line 426 is a call inside the \<open>try\<close> block, so what it throws passes through the
  handler of the calling frame; the retry of line 466 is a call inside the handler, so
  what it throws leaves the frame. Both calls start again from page 1 with an empty
  \<open>allData\<close>.
\<close>

function request_loop ::
  "ApiClient \<Rightarrow> jsval \<Rightarrow> (string \<times> jsval) list \<Rightarrow> nat \<Rightarrow> nat \<Rightarrow> raw_record list \<Rightarrow> world
     \<Rightarrow> raw_record list completion \<times> world" where
  "request_loop c endpoint params retryCount page allData w =
     (case try_block c endpoint params retryCount page allData w of
        (No_response, w') \<Rightarrow> (Unanswered, w')
      | (Falls_through hasMoreData page' allData', w') \<Rightarrow>
          if hasMoreData then request_loop c endpoint params retryCount page' allData' w'
          else (Returned allData', w')
      | (Retry_429, w') \<Rightarrow>
          (case request_loop c endpoint params (retryCount + 1) 1 [] w' of
             (Thrown e, w'') \<Rightarrow>
               if retryCount < maxRetries c \<and> str_includes (error_toString e) ''timeout''
               then request_loop c endpoint params (retryCount + 1) 1 [] (sleep 2000 w'')
               else (Thrown e, w'')
           | (Returned d, w'') \<Rightarrow> (Returned d, w'')
           | (Unanswered, w'') \<Rightarrow> (Unanswered, w''))
      | (Throws e, w') \<Rightarrow>
          if retryCount < maxRetries c \<and> str_includes (error_toString e) ''timeout''
          then request_loop c endpoint params (retryCount + 1) 1 [] (sleep 2000 w')
          else (Thrown e, w'))"
  by pat_completeness auto

lemma try_block_Falls_through:
  "try_block c endpoint params retryCount page allData w = (Falls_through m p a, w')
   \<Longrightarrow> length (responses w') < length (responses w)"
  by (auto simp: try_block_def sleep_def Let_def
           split: list.splits fetch_result.splits if_splits sum.splits prod.splits)

lemma try_block_Retry_429:
  "try_block c endpoint params retryCount page allData w = (Retry_429, w')
   \<Longrightarrow> retryCount < maxRetries c"
  by (auto simp: try_block_def sleep_def Let_def
           split: list.splits fetch_result.splits if_splits sum.splits prod.splits)

termination request_loop
  apply (relation "measures [\<lambda>(c, ep, ps, rc, page, acc, w). maxRetries c - rc,
                             \<lambda>(c, ep, ps, rc, page, acc, w). length (responses w)]")
      apply simp
     apply (auto dest: try_block_Falls_through[OF sym] try_block_Retry_429[OF sym])
  done

declare request_loop.simps [simp del]

text \<open>
  \<open>makeRequest(endpoint, params = {}, retryCount = 0)\<close>: \<open>allData = []\<close>,
  \<open>page = 1\<close>, the loop, and \<open>{ data: allData }\<close> returned (here \<open>allData\<close> itself).
\<close>

definition makeRequest ::
  "ApiClient \<Rightarrow> jsval \<Rightarrow> (string \<times> jsval) list \<Rightarrow> nat \<Rightarrow> world
     \<Rightarrow> raw_record list completion \<times> world" where
  "makeRequest c endpoint params retryCount w = request_loop c endpoint params retryCount 1 [] w"

section \<open>CONFIG and the paginating client of Code.js\<close>

text \<open>
  The global \<open>CONFIG\<close>. The functions below take it as an argument, since the repository
  holds two versions of it: the one of Code.js, without a payments endpoint, and the one
  of the earlier copy of that file, with it. A key that \<open>ENDPOINTS\<close> does not hold
  reads as \<open>undefined\<close>.
\<close>

record config =
  API_BASE_URL :: string
  API_KEY :: string
  SHEET_NAME :: string
  ENDPOINTS :: "(string \<times> string) list"

definition CONFIG :: config where
  "CONFIG = \<lparr>API_BASE_URL = ''https://aff-api.uppromote.com/api/v1'',
             API_KEY = '''',
             SHEET_NAME = ''UpPromoter_Data'',
             ENDPOINTS = [(''AFFILIATES'', ''/affiliates''), (''REFERRALS'', ''/referrals''),
                          (''COUPONS'', ''/coupons'')]\<rparr>"

definition CONFIG_earlier :: config where
  "CONFIG_earlier = \<lparr>API_BASE_URL = ''https://aff-api.uppromote.com/api/v1'',
             API_KEY = '''',
             SHEET_NAME = ''UpPromote Data'',
             ENDPOINTS = [(''AFFILIATES'', ''/affiliates''), (''REFERRALS'', ''/referrals''),
                          (''COUPONS'', ''/coupons''), (''PAYMENTS'', ''/payments'')]\<rparr>"

definition ENDPOINT :: "config \<Rightarrow> string \<Rightarrow> jsval" where
  "ENDPOINT cfg k = (case map_of (ENDPOINTS cfg) k of None \<Rightarrow> JUndefined | Some p \<Rightarrow> JStr p)"

text \<open>
  \<open>makeApiRequest(endpoint, params = {})\<close> of Code.js: the same loop without the
  delay before a request, without the 429 branch and with a handler that only logs and
  throws again.
\<close>

function api_request_loop ::
  "config \<Rightarrow> jsval \<Rightarrow> (string \<times> jsval) list \<Rightarrow> nat \<Rightarrow> raw_record list \<Rightarrow> world
     \<Rightarrow> raw_record list completion \<times> world" where
  "api_request_loop cfg endpoint params page allData w =
     (let w2 = w\<lparr>trace := trace w @
                 [Fetch \<lparr>url = API_BASE_URL cfg @ js_toString endpoint,
                         query = paginationParams params page,
                         bearer = API_KEY cfg\<rparr>]\<rparr>
      in case responses w of
           [] \<Rightarrow> (Unanswered, w2)
         | FetchThrows text # rest \<Rightarrow> (Thrown (Exception text), w2\<lparr>responses := rest\<rparr>)
         | Response r # rest \<Rightarrow>
             (let w3 = w2\<lparr>responses := rest\<rparr> in
              if responseCode r \<noteq> 200 then
                (Thrown (ApiError (responseCode r) (contentText r)), w3)
              else
                (case parsed r of
                   Inl text \<Rightarrow> (Thrown (Exception text), w3)
                 | Inr responseData \<Rightarrow>
                     (case page_step responseData page allData of
                        (hasMoreData, page', allData') \<Rightarrow>
                          if hasMoreData
                          then api_request_loop cfg endpoint params page' allData' (sleep 500 w3)
                          else (Returned allData', w3)))))"
  by pat_completeness auto
termination
  by (relation "measure (\<lambda>(cfg, ep, ps, page, acc, w). length (responses w))")
     (auto simp: sleep_def)

declare api_request_loop.simps [simp del]

definition makeApiRequest ::
  "config \<Rightarrow> jsval \<Rightarrow> (string \<times> jsval) list \<Rightarrow> world \<Rightarrow> raw_record list completion \<times> world" where
  "makeApiRequest cfg endpoint params w = api_request_loop cfg endpoint params 1 [] w"

text \<open>
  \<open>makeApiRequest\<close> of the earlier copy of Code.js: one request with the caller's
  parameters as they are, and the parsed body returned.
\<close>

definition makeApiRequest_earlier ::
  "config \<Rightarrow> jsval \<Rightarrow> (string \<times> jsval) list \<Rightarrow> world \<Rightarrow> page_response completion \<times> world" where
  "makeApiRequest_earlier cfg endpoint params w =
     (let w2 = w\<lparr>trace := trace w @
                 [Fetch \<lparr>url = API_BASE_URL cfg @ js_toString endpoint,
                         query = params,
                         bearer = API_KEY cfg\<rparr>]\<rparr>
      in case responses w of
           [] \<Rightarrow> (Unanswered, w2)
         | FetchThrows text # rest \<Rightarrow> (Thrown (Exception text), w2\<lparr>responses := rest\<rparr>)
         | Response r # rest \<Rightarrow>
             (let w3 = w2\<lparr>responses := rest\<rparr> in
              if responseCode r \<noteq> 200 then
                (Thrown (ApiError (responseCode r) (contentText r)), w3)
              else
                (case parsed r of
                   Inl text \<Rightarrow> (Thrown (Exception text), w3)
                 | Inr responseData \<Rightarrow> (Returned responseData, w3))))"

section \<open>Tables\<close>

text \<open>
  A table is the list of its rows of cell values. \<open>getRange(row, 1, n, width).setValues(vs)\<close>
  replaces the rows \<open>row .. row + n - 1\<close>, the table growing by empty rows when it is
  shorter. Fonts, colours, banding, column widths and frozen rows change no cell value and
  are left out.
\<close>

definition setValues :: "nat \<Rightarrow> grid \<Rightarrow> grid \<Rightarrow> grid" where
  "setValues row vs g =
     take (row - 1) (g @ replicate (row - 1 - length g) []) @ vs @ drop (row - 1 + length vs) g"

text \<open>
  \<open>getOrCreateSheet(sheetName)\<close> of SheetManager and of Code.js: the table of that name,
  inserted empty when there is none. The sheet object it returns is stood for by the name.
\<close>

definition getOrCreateSheet :: "string \<Rightarrow> world \<Rightarrow> world" where
  "getOrCreateSheet sheetName w =
     (case sheets w sheetName of
        None \<Rightarrow> w\<lparr>sheets := (sheets w)(sheetName \<mapsto> [])\<rparr>
      | Some g \<Rightarrow> w)"

definition sheet_clear :: "string \<Rightarrow> world \<Rightarrow> world" where
  "sheet_clear sheet w = w\<lparr>sheets := (sheets w)(sheet \<mapsto> [])\<rparr>"

definition sheet_setValues :: "string \<Rightarrow> nat \<Rightarrow> grid \<Rightarrow> world \<Rightarrow> world" where
  "sheet_setValues sheet row vs w =
     w\<lparr>sheets := (sheets w)(sheet \<mapsto> setValues row vs (case sheets w sheet of None \<Rightarrow> [] | Some g \<Rightarrow> g))\<rparr>"

text \<open>
  \<open>writeDataWithFormatting(sheet, headers, rows)\<close> of SheetManager: clear, the header
  row, the data rows from row 2 when there are any. This is the write on a table that
  the spreadsheet lets be cleared; the callers hold the other case.
\<close>

definition writeDataWithFormatting :: "string \<Rightarrow> jsval list \<Rightarrow> grid \<Rightarrow> world \<Rightarrow> world" where
  "writeDataWithFormatting sheet headers rows w =
     (let w1 = sheet_clear sheet w;
          w2 = sheet_setValues sheet 1 [headers] w1
      in if length rows > 0 then sheet_setValues sheet 2 rows w2 else w2)"


section \<open>The pulls of Setup.js\<close>

definition affiliates_headers :: "jsval list" where
  "affiliates_headers = map JStr
     [''ID'', ''Email'', ''Name'', ''Status'', ''Commission Rate (%)'',
      ''Total Referrals'', ''Total Earnings'', ''Created Date'', ''Last Updated'']"

definition affiliate_row :: "platform \<Rightarrow> raw_record \<Rightarrow> jsval list" where
  "affiliate_row P affiliate =
     [js_or (field affiliate ''id'') (JStr ''''),
      js_or (JStr (sanitizeString (field affiliate ''email''))) (JStr ''''),
      js_or (JStr (sanitizeString (field affiliate ''name''))) (JStr ''''),
      js_or (field affiliate ''status'') (JStr ''''),
      js_or (field affiliate ''commission_rate'') (JStr ''''),
      js_or (field affiliate ''total_referrals'') (JNum 0),
      js_or (formatCurrency P (field affiliate ''total_earnings'') JUndefined) (JStr ''''),
      js_or (JStr (formatDate P (field affiliate ''created_at''))) (JStr ''''),
      js_or (JStr (formatDate P (field affiliate ''updated_at''))) (JStr '''')]"

definition referrals_headers :: "jsval list" where
  "referrals_headers = map JStr
     [''ID'', ''Affiliate ID'', ''Customer Email'', ''Order Value'',
      ''Commission Amount'', ''Commission Rate (%)'', ''Status'', ''Order Date'', ''Created Date'']"

definition referral_row :: "platform \<Rightarrow> raw_record \<Rightarrow> jsval list" where
  "referral_row P referral =
     [js_or (field referral ''id'') (JStr ''''),
      js_or (field referral ''affiliate_id'') (JStr ''''),
      js_or (JStr (sanitizeString (field referral ''customer_email''))) (JStr ''''),
      js_or (formatCurrency P (field referral ''order_value'') JUndefined) (JStr ''''),
      js_or (formatCurrency P (field referral ''commission'') JUndefined) (JStr ''''),
      js_or (field referral ''commission_rate'') (JStr ''''),
      js_or (field referral ''status'') (JStr ''''),
      js_or (JStr (formatDate P (field referral ''order_date''))) (JStr ''''),
      js_or (JStr (formatDate P (field referral ''created_at''))) (JStr '''')]"

definition coupons_headers :: "jsval list" where
  "coupons_headers = map JStr
     [''ID'', ''Code'', ''Affiliate ID'', ''Discount Type'', ''Discount Value'',
      ''Usage Count'', ''Usage Limit'', ''Status'', ''Expiry Date'', ''Created Date'']"

definition coupon_row :: "platform \<Rightarrow> raw_record \<Rightarrow> jsval list" where
  "coupon_row P coupon =
     [js_or (field coupon ''id'') (JStr ''''),
      js_or (JStr (sanitizeString (field coupon ''code''))) (JStr ''''),
      js_or (field coupon ''affiliate_id'') (JStr ''''),
      js_or (field coupon ''discount_type'') (JStr ''''),
      js_or (field coupon ''discount_value'') (JStr ''''),
      js_or (field coupon ''usage_count'') (JNum 0),
      js_or (field coupon ''usage_limit'') (JStr ''''),
      js_or (field coupon ''status'') (JStr ''''),
      js_or (JStr (formatDate P (field coupon ''expiry_date''))) (JStr ''''),
      js_or (JStr (formatDate P (field coupon ''created_at''))) (JStr '''')]"

definition payments_headers :: "jsval list" where
  "payments_headers = map JStr
     [''ID'', ''Affiliate ID'', ''Amount'', ''Currency'', ''Status'',
      ''Payment Method'', ''Transaction ID'', ''Processing Date'', ''Created Date'']"

definition payment_row :: "platform \<Rightarrow> raw_record \<Rightarrow> jsval list" where
  "payment_row P payment =
     [js_or (field payment ''id'') (JStr ''''),
      js_or (field payment ''affiliate_id'') (JStr ''''),
      js_or (formatCurrency P (field payment ''amount'') (field payment ''currency'')) (JStr ''''),
      js_or (field payment ''currency'') (JStr ''''),
      js_or (field payment ''status'') (JStr ''''),
      js_or (field payment ''payment_method'') (JStr ''''),
      js_or (field payment ''transaction_id'') (JStr ''''),
      js_or (JStr (formatDate P (field payment ''processing_date''))) (JStr ''''),
      js_or (JStr (formatDate P (field payment ''created_at''))) (JStr '''')]"

text \<open>
  The four pulls of Setup.js are one text with four sets of names:
  \<^verbatim>\<open>try {
    const data = apiClient.makeRequest(CONFIG.ENDPOINTS.X);
    const sheet = sheetManager.getOrCreateSheet('X');
    if (data && data.data && data.data.length > 0) {
      const headers = [...]; const rows = data.data.map(x => [...]);
      sheetManager.writeDataWithFormatting(sheet, headers, rows);
      return rows.length;
    } else { return 0; }
  } catch (error) { ErrorReporter.logError(..); return 0; }\<close>
  The writer begins with \<open>sheet.clear()\<close>: on a table that the spreadsheet refuses
  to clear it throws before it has written, and the handler of the pull returns 0.
\<close>

definition pullDataEnhanced ::
  "ApiClient \<Rightarrow> jsval \<Rightarrow> string \<Rightarrow> jsval list \<Rightarrow> (raw_record \<Rightarrow> jsval list) \<Rightarrow> world
     \<Rightarrow> nat completion \<times> world" where
  "pullDataEnhanced apiClient endpoint sheetName headers project w =
     (case makeRequest apiClient endpoint [] 0 w of
        (Unanswered, w1) \<Rightarrow> (Unanswered, w1)
      | (Thrown e, w1) \<Rightarrow> (Returned 0, w1)
      | (Returned d, w1) \<Rightarrow>
          (let w2 = getOrCreateSheet sheetName w1 in
           if length d > 0 then
             (let rows = map project d in
              case refused w2 sheetName of
                Some text \<Rightarrow> (Returned 0, w2)
              | None \<Rightarrow>
                  (Returned (length rows), writeDataWithFormatting sheetName headers rows w2))
           else (Returned 0, w2)))"

definition pullAffiliatesDataEnhanced ::
  "platform \<Rightarrow> config \<Rightarrow> ApiClient \<Rightarrow> world \<Rightarrow> nat completion \<times> world" where
  "pullAffiliatesDataEnhanced P cfg apiClient =
     pullDataEnhanced apiClient (ENDPOINT cfg ''AFFILIATES'') ''Affiliates''
       affiliates_headers (affiliate_row P)"

definition pullReferralsDataEnhanced ::
  "platform \<Rightarrow> config \<Rightarrow> ApiClient \<Rightarrow> world \<Rightarrow> nat completion \<times> world" where
  "pullReferralsDataEnhanced P cfg apiClient =
     pullDataEnhanced apiClient (ENDPOINT cfg ''REFERRALS'') ''Referrals''
       referrals_headers (referral_row P)"

definition pullCouponsDataEnhanced ::
  "platform \<Rightarrow> config \<Rightarrow> ApiClient \<Rightarrow> world \<Rightarrow> nat completion \<times> world" where
  "pullCouponsDataEnhanced P cfg apiClient =
     pullDataEnhanced apiClient (ENDPOINT cfg ''COUPONS'') ''Coupons''
       coupons_headers (coupon_row P)"

definition pullPaymentsDataEnhanced ::
  "platform \<Rightarrow> config \<Rightarrow> ApiClient \<Rightarrow> world \<Rightarrow> nat completion \<times> world" where
  "pullPaymentsDataEnhanced P cfg apiClient =
     pullDataEnhanced apiClient (ENDPOINT cfg ''PAYMENTS'') ''Payments''
       payments_headers (payment_row P)"

section \<open>Summary, validation and the run (Setup.js)\<close>

record dataCounts =
  affiliates :: nat
  referrals :: nat
  coupons :: nat
  payments :: nat

text \<open>
  \<open>addSummarySheet(data)\<close>: seven rows of two cells written from row 1 of a cleared
  table. No handler stands around \<open>summarySheet.clear()\<close>: when the spreadsheet
  refuses to clear the table, the exception leaves the function.
\<close>

definition summaryData :: "platform \<Rightarrow> dataCounts \<Rightarrow> grid" where
  "summaryData P d =
     [[JStr ''UpPromote Data Summary'', JStr ''''],
      [JStr ''Last Updated'', JStr (now_text P)],
      [JStr '''', JStr ''''],
      [JStr ''Data Type'', JStr ''Count''],
      [JStr ''Affiliates'', js_or (JNum (int (affiliates d))) (JNum 0)],
      [JStr ''Referrals'', js_or (JNum (int (referrals d))) (JNum 0)],
      [JStr ''Coupons'', js_or (JNum (int (coupons d))) (JNum 0)]]"

definition addSummarySheet :: "platform \<Rightarrow> dataCounts \<Rightarrow> world \<Rightarrow> unit completion \<times> world" where
  "addSummarySheet P d w =
     (let w1 = getOrCreateSheet ''Summary'' w in
      case refused w1 ''Summary'' of
        Some text \<Rightarrow> (Thrown (Exception text), w1)
      | None \<Rightarrow>
          (let w2 = sheet_clear ''Summary'' w1
           in (Returned (), sheet_setValues ''Summary'' 1 (summaryData P d) w2)))"

text \<open>\<open>ConfigValidator.validateConfig\<close>: every missing field is listed in one error.\<close>

definition validateConfig :: "jsval \<Rightarrow> string \<Rightarrow> (string \<times> string) list \<Rightarrow> error + bool" where
  "validateConfig key base endpoints =
     (let errors =
            (if \<not> truthy key then [''API_KEY is required''] else []) @
            (if base = [] then [''API_BASE_URL is required''] else []) @
            (if endpoints = [] then [''ENDPOINTS configuration is required''] else [])
      in if length errors > 0 then Inl (ConfigInvalid errors) else Inr True)"

text \<open>
  \<open>pullUpPromoteDataEnhanced()\<close>. The value returned is \<open>dataCounts\<close>; the duration
  and the time stamp of the returned object are wall-clock readings and are left out. The
  spreadsheet of \<open>getOrCreateSpreadsheet()\<close> is the one whose tables the state holds;
  the call throws when the spreadsheet cannot be opened. The handler of the function
  logs and throws the error again, so what \<open>getOrCreateSpreadsheet\<close> or
  \<open>addSummarySheet\<close> throws ends the run.
\<close>

definition pullUpPromoteDataEnhanced ::
  "platform \<Rightarrow> config \<Rightarrow> world \<Rightarrow> dataCounts completion \<times> world" where
  "pullUpPromoteDataEnhanced P cfg w =
     (let key = stored_key w in
      if \<not> truthy key then (Thrown ApiKeyNotFound, w)
      else
        (case validateConfig key (API_BASE_URL cfg) (ENDPOINTS cfg) of
           Inl e \<Rightarrow> (Thrown e, w)
         | Inr ok \<Rightarrow>
             (let apiClient = new_ApiClient (API_BASE_URL cfg) (js_toString key);
                  w0 = w\<lparr>requestCount := 0\<rparr>
              in case open_error w0 of
                   Some text \<Rightarrow> (Thrown (Exception text), w0)
                 | None \<Rightarrow>
              (case pullAffiliatesDataEnhanced P cfg apiClient w0 of
                   (Unanswered, w1) \<Rightarrow> (Unanswered, w1)
                 | (Thrown e, w1) \<Rightarrow> (Thrown e, w1)
                 | (Returned a, w1) \<Rightarrow>
              (case pullReferralsDataEnhanced P cfg apiClient w1 of
                   (Unanswered, w2) \<Rightarrow> (Unanswered, w2)
                 | (Thrown e, w2) \<Rightarrow> (Thrown e, w2)
                 | (Returned r, w2) \<Rightarrow>
              (case pullCouponsDataEnhanced P cfg apiClient w2 of
                   (Unanswered, w3) \<Rightarrow> (Unanswered, w3)
                 | (Thrown e, w3) \<Rightarrow> (Thrown e, w3)
                 | (Returned cp, w3) \<Rightarrow>
              (case pullPaymentsDataEnhanced P cfg apiClient w3 of
                   (Unanswered, w4) \<Rightarrow> (Unanswered, w4)
                 | (Thrown e, w4) \<Rightarrow> (Thrown e, w4)
                 | (Returned p, w4) \<Rightarrow>
                     (let counts = \<lparr>affiliates = a, referrals = r, coupons = cp, payments = p\<rparr>
                      in case addSummarySheet P counts w4 of
                           (Unanswered, w5) \<Rightarrow> (Unanswered, w5)
                         | (Thrown e, w5) \<Rightarrow> (Thrown e, w5)
                         | (Returned u, w5) \<Rightarrow> (Returned counts, w5)))))))))"

section \<open>The connection tests\<close>

text \<open>
  \<open>testApiConnectionSecure()\<close> of Setup.js and \<open>testApiConnection()\<close> of Code.js and
  of its earlier copy: each passes \<open>{ limit: 1 }\<close> to its client.
\<close>

definition testApiConnectionSecure :: "config \<Rightarrow> world \<Rightarrow> bool completion \<times> world" where
  "testApiConnectionSecure cfg w =
     (let key = stored_key w in
      if \<not> truthy key then (Returned False, w)
      else
        (case makeRequest (new_ApiClient (API_BASE_URL cfg) (js_toString key))
                (ENDPOINT cfg ''AFFILIATES'') [(''limit'', JNum 1)] 0 (w\<lparr>requestCount := 0\<rparr>) of
           (Returned d, w') \<Rightarrow> (Returned True, w')
         | (Thrown e, w') \<Rightarrow> (Returned False, w')
         | (Unanswered, w') \<Rightarrow> (Unanswered, w')))"

definition testApiConnection :: "config \<Rightarrow> world \<Rightarrow> bool completion \<times> world" where
  "testApiConnection cfg w =
     (if API_KEY cfg = [] then (Returned False, w)
      else
        (case makeApiRequest cfg (ENDPOINT cfg ''AFFILIATES'') [(''limit'', JNum 1)] w of
           (Returned d, w') \<Rightarrow> (Returned True, w')
         | (Thrown e, w') \<Rightarrow> (Returned False, w')
         | (Unanswered, w') \<Rightarrow> (Unanswered, w')))"

definition testApiConnection_earlier :: "config \<Rightarrow> world \<Rightarrow> bool completion \<times> world" where
  "testApiConnection_earlier cfg w =
     (if API_KEY cfg = [] then (Returned False, w)
      else
        (case makeApiRequest_earlier cfg (ENDPOINT cfg ''AFFILIATES'') [(''limit'', JNum 1)] w of
           (Returned d, w') \<Rightarrow> (Returned True, w')
         | (Thrown e, w') \<Rightarrow> (Returned False, w')
         | (Unanswered, w') \<Rightarrow> (Unanswered, w')))"

text \<open>The requests of a trace, in order, and the page numbers they ask for.\<close>

fun requests :: "event list \<Rightarrow> request list" where
  "requests [] = []"
| "requests (Fetch r # es) = r # requests es"
| "requests (Sleep ms # es) = requests es"

definition param :: "request \<Rightarrow> string \<Rightarrow> jsval" where
  "param r k = field (query r) k"

section \<open>The affiliates pull of Code.js\<close>






section \<open>Paginated answers\<close>

text \<open>
  A well-formed page: an answer that is page \<open>i\<close> of \<open>K\<close>, that
  is a response with status 200 whose body parses to a non-empty \<open>data\<close> array and a
  \<open>meta\<close> with \<open>current_page = i\<close> and \<open>last_page = K\<close>; and a run of such answers
  for the pages \<open>i\<close>, \<open>i + 1\<close>, ...
\<close>

definition is_page :: "nat \<Rightarrow> nat \<Rightarrow> fetch_result \<Rightarrow> bool" where
  "is_page K i r =
     (case r of
        FetchThrows text \<Rightarrow> False
      | Response h \<Rightarrow>
          responseCode h = 200 \<and>
          (case parsed h of
             Inl text \<Rightarrow> False
           | Inr pr \<Rightarrow>
               data pr \<noteq> None \<and> data pr \<noteq> Some [] \<and>
               meta pr = Some \<lparr>current_page = int i, last_page = int K\<rparr>))"

definition page_data :: "fetch_result \<Rightarrow> raw_record list" where
  "page_data r =
     (case r of
        FetchThrows text \<Rightarrow> []
      | Response h \<Rightarrow>
          (case parsed h of
             Inl text \<Rightarrow> []
           | Inr pr \<Rightarrow> (case data pr of None \<Rightarrow> [] | Some d \<Rightarrow> d)))"

fun paged :: "nat \<Rightarrow> nat \<Rightarrow> fetch_result list \<Rightarrow> bool" where
  "paged K i [] = True"
| "paged K i (r # rs) = (is_page K i r \<and> paged K (Suc i) rs)"

text \<open>The request the client of Setup.js issues for a page, and that of Code.js.\<close>

definition page_request :: "ApiClient \<Rightarrow> jsval \<Rightarrow> (string \<times> jsval) list \<Rightarrow> nat \<Rightarrow> request" where
  "page_request c endpoint params page =
     \<lparr>url = baseUrl c @ js_toString endpoint, query = paginationParams params page, bearer = apiKey c\<rparr>"

definition api_page_request :: "config \<Rightarrow> jsval \<Rightarrow> (string \<times> jsval) list \<Rightarrow> nat \<Rightarrow> request" where
  "api_page_request cfg endpoint params page =
     \<lparr>url = API_BASE_URL cfg @ js_toString endpoint, query = paginationParams params page,
      bearer = API_KEY cfg\<rparr>"

text \<open>The page numbers the requests of a trace ask for, in order.\<close>

definition page_of_request :: "request \<Rightarrow> jsval" where
  "page_of_request r = param r ''page''"

definition pages_asked :: "event list \<Rightarrow> jsval list" where
  "pages_asked tr = map page_of_request (requests tr)"

text \<open>
  What the handler of a frame makes of the retry that line 426 started, when the frame
  itself may still retry: an error whose text holds \<open>timeout\<close> starts the fetch once
  more, anything else is passed on.
\<close>

definition handle_retry ::
  "ApiClient \<Rightarrow> jsval \<Rightarrow> (string \<times> jsval) list \<Rightarrow> nat \<Rightarrow> raw_record list completion \<times> world
     \<Rightarrow> raw_record list completion \<times> world" where
  "handle_retry c endpoint params retryCount inner =
     (case inner of
        (Thrown e, w'') \<Rightarrow>
          if str_includes (error_toString e) ''timeout''
          then makeRequest c endpoint params (retryCount + 1) (sleep 2000 w'')
          else (Thrown e, w'')
      | (Returned d, w'') \<Rightarrow> (Returned d, w'')
      | (Unanswered, w'') \<Rightarrow> (Unanswered, w''))"

text \<open>
  The state once the request for a page has been issued and answered with a response:
  the delay before the request when the client has asked before, the request, the answer
  taken, the counter raised.
\<close>

definition after_fetch :: "ApiClient \<Rightarrow> jsval \<Rightarrow> (string \<times> jsval) list \<Rightarrow> nat \<Rightarrow> world \<Rightarrow> world" where
  "after_fetch c endpoint params page w =
     w\<lparr>trace := trace w @ (if requestCount w > 0 then [Sleep 1000] else [])
                  @ [Fetch (page_request c endpoint params page)],
       responses := tl (responses w),
       requestCount := requestCount w + 1\<rparr>"

text \<open>The \<open>limit\<close> parameters the requests of a trace carry, in order.\<close>

definition limit_of_request :: "request \<Rightarrow> jsval" where
  "limit_of_request r = param r ''limit''"

definition limits_asked :: "event list \<Rightarrow> jsval list" where
  "limits_asked tr = map limit_of_request (requests tr)"

text \<open>An answer with status 429.\<close>

definition is_429 :: "fetch_result \<Rightarrow> bool" where
  "is_429 r = (case r of FetchThrows text \<Rightarrow> False | Response h \<Rightarrow> responseCode h = 429)"

section \<open>A host for concrete runs\<close>

text \<open>
  A platform to evaluate examples on: its parser knows one ISO date, its number format
  knows US dollars.
\<close>

definition sample_platform :: platform where
  "sample_platform =
     \<lparr>Date_parse = (\<lambda>s. if s = ''1970-01-01T00:00:00Z'' then Some 0 else None),
      toLocaleString = (\<lambda>t. ''1/1/1970, 12:00:00 AM''),
      NumberFormat = (\<lambda>cur amount. if cur = ''USD'' then Some (CHR ''$'' # js_toString amount) else None),
      now_text = ''11/3/2026, 9:00:00 AM'',
      StringToNumber = (\<lambda>s. if s = ''0'' then Some 0 else None)\<rparr>"

text \<open>A client, answers and a starting state for concrete runs.\<close>

definition sample_client :: ApiClient where
  "sample_client = new_ApiClient ''https://aff-api.uppromote.com/api/v1'' ''k''"

definition rec :: "int \<Rightarrow> raw_record" where
  "rec i = [(''id'', JNum i)]"

definition page_of :: "nat \<Rightarrow> nat \<Rightarrow> raw_record list \<Rightarrow> fetch_result" where
  "page_of i K d =
     Response \<lparr>responseCode = 200, contentText = ''{}'',
               parsed = Inr \<lparr>data = Some d,
                              meta = Some \<lparr>current_page = int i, last_page = int K\<rparr>,
                              links_next = False\<rparr>\<rparr>"

definition status_response :: "nat \<Rightarrow> string \<Rightarrow> fetch_result" where
  "status_response code body =
     Response \<lparr>responseCode = code, contentText = body, parsed = Inl ''SyntaxError''\<rparr>"

definition sample_world :: "fetch_result list \<Rightarrow> world" where
  "sample_world rs =
     \<lparr>responses = rs, trace = [], requestCount = 0, sheets = Map.empty, stored_key = JStr ''k'',
      refused = Map.empty, open_error = None\<rparr>"



text \<open>
  The text of the exception that \<open>UrlFetchApp.fetch\<close> raises for a status outside 2xx
  when \<open>muteHttpExceptions\<close> is not set, as it is not in the options of either client.
\<close>

definition host_status_error :: "string \<Rightarrow> nat \<Rightarrow> string \<Rightarrow> string" where
  "host_status_error address code body =
     ''Exception: Request failed for '' @ address @ '' returned code '' @ show_nat code
       @ ''. Truncated server response: '' @ body
       @ '' (use muteHttpExceptions option to examine full response)''"




section \<open>What a resource serves\<close>

text \<open>
  The answers a server gives to the fetch of one resource, in one of three ways: the pages 1 to \<open>K\<close> of a resource that has records; one answer
  with status 200 and no records; one answer that makes the fetch fail for good, that is
  a status other than 200 and 429, or an exception of the platform, whose text does not
  hold \<open>timeout\<close>.
\<close>

datatype served = Pages "fetch_result list" | No_records fetch_result | Failure fetch_result

definition is_empty_page :: "fetch_result \<Rightarrow> bool" where
  "is_empty_page r =
     (case r of
        FetchThrows text \<Rightarrow> False
      | Response h \<Rightarrow>
          responseCode h = 200 \<and>
          (case parsed h of
             Inl text \<Rightarrow> False
           | Inr pr \<Rightarrow> data pr = None \<or> data pr = Some []))"

definition is_failure :: "fetch_result \<Rightarrow> bool" where
  "is_failure r =
     (case r of
        FetchThrows text \<Rightarrow> \<not> str_includes text ''timeout''
      | Response h \<Rightarrow>
          responseCode h \<noteq> 200 \<and> responseCode h \<noteq> 429 \<and>
          \<not> str_includes (contentText h) ''timeout'')"

fun ok_served :: "served \<Rightarrow> bool" where
  "ok_served (Pages rs) = (rs \<noteq> [] \<and> paged (length rs) 1 rs)"
| "ok_served (No_records r) = is_empty_page r"
| "ok_served (Failure r) = is_failure r"

fun script :: "served \<Rightarrow> fetch_result list" where
  "script (Pages rs) = rs"
| "script (No_records r) = [r]"
| "script (Failure r) = [r]"

fun records_of :: "served \<Rightarrow> raw_record list" where
  "records_of (Pages rs) = concat (map page_data rs)"
| "records_of (No_records r) = []"
| "records_of (Failure r) = []"

fun failed :: "served \<Rightarrow> bool" where
  "failed (Failure r) = True"
| "failed s = False"

text \<open>
  The table of a resource after its pull of Setup.js, from the table before: written anew
  when records came, left as it was (inserted empty when absent) when none came, not
  touched when the fetch failed.
\<close>

fun table_after :: "served \<Rightarrow> jsval list \<Rightarrow> (raw_record \<Rightarrow> jsval list) \<Rightarrow> grid option \<Rightarrow> grid option" where
  "table_after (Pages rs) headers project old = Some (headers # map project (concat (map page_data rs)))"
| "table_after (No_records r) headers project old = Some (case old of None \<Rightarrow> [] | Some g \<Rightarrow> g)"
| "table_after (Failure r) headers project old = old"

text \<open>The URLs of the requests of a trace, in order.\<close>

definition urls_asked :: "event list \<Rightarrow> string list" where
  "urls_asked tr = map url (requests tr)"

fun has_records :: "served \<Rightarrow> bool" where
  "has_records (Pages rs) = True"
| "has_records s = False"

text \<open>The counts a run records for what the four resources serve.\<close>

definition counts_of :: "served \<Rightarrow> served \<Rightarrow> served \<Rightarrow> served \<Rightarrow> dataCounts" where
  "counts_of sa sr sc sp =
     \<lparr>affiliates = length (records_of sa), referrals = length (records_of sr),
      coupons = length (records_of sc), payments = length (records_of sp)\<rparr>"




section \<open>DataFormatter: properties\<close>






lemma formatDate_falsy: "\<not> truthy v \<Longrightarrow> formatDate P v = ''''"
  by (simp add: formatDate_def)

text \<open>
  C4. \<open>formatDate\<close> of \<open>null\<close>, \<open>undefined\<close> and the empty string is the empty
  string. On a string that the date parser rejects, such as \<open>not-a-date\<close>, the code
  does not give the string back: \<open>new Date\<close> builds an Invalid Date without throwing,
  the handler that would return the input is never entered, and the result is the text
  \<open>Invalid Date\<close>.
\<close>

theorem formatDate_not_a_date:
  assumes "Date_parse P ''not-a-date'' = None"
  shows "formatDate P (JStr ''not-a-date'') = ''Invalid Date''
         \<and> formatDate P (JStr ''not-a-date'') \<noteq> ''not-a-date''
         \<and> formatDate P JNull = '''' \<and> formatDate P JUndefined = ''''
         \<and> formatDate P (JStr '''') = ''''"
  using assms by (simp add: formatDate_def Date_toLocaleString_def)

theorem formatDate_not_a_date_witness:
  "Date_parse sample_platform ''not-a-date'' = None
   \<and> formatDate sample_platform (JStr ''not-a-date'') = ''Invalid Date''"
proof -
  have h: "Date_parse sample_platform ''not-a-date'' = None"
    by (simp add: sample_platform_def)
  show ?thesis using h formatDate_not_a_date [OF h] by simp
qed



text \<open>
  C10. \<open>formatCurrency\<close> gives the empty string on every falsy amount, whatever the
  currency, and so on the number 0: a zero amount becomes an empty cell.
\<close>

theorem formatCurrency_falsy:
  "(\<not> truthy amount \<longrightarrow> formatCurrency P amount currency = JStr '''')
   \<and> formatCurrency P (JNum 0) currency = JStr ''''"
  by (simp add: formatCurrency_def Let_def)

theorem formatCurrency_falsy_witness:
  "\<not> truthy JNaN \<and> formatCurrency sample_platform JNaN (JStr ''EUR'') = JStr ''''
   \<and> formatCurrency sample_platform (JNum 0) (JStr ''USD'') = JStr ''''"
  using formatCurrency_falsy [of JNaN sample_platform "JStr ''EUR''"]
        formatCurrency_falsy [of JNaN sample_platform "JStr ''USD''"]
  by simp

section \<open>The paginating clients: properties\<close>


lemma requests_append: "requests (a @ b) = requests a @ requests b"
  by (induction a rule: requests.induct) simp_all

lemma try_block_page:
  assumes "is_page K p r" "responses w = r # rest"
  shows "\<exists>w'. try_block c ep ps rc p acc w = (Falls_through (p < K) (Suc p) (acc @ page_data r), w')
          \<and> responses w' = rest
          \<and> requests (trace w') = requests (trace w) @ [page_request c ep ps p]
          \<and> requestCount w' = Suc (requestCount w)
          \<and> sheets w' = sheets w \<and> stored_key w' = stored_key w"
  using assms
  by (auto simp: try_block_def is_page_def page_data_def page_step_def sleep_def Let_def
        requests_append page_request_def
      split: fetch_result.splits sum.splits option.splits list.splits)

lemma request_loop_pages:
  "paged K p rs \<Longrightarrow> rs \<noteq> [] \<Longrightarrow> p + length rs = Suc K \<Longrightarrow> responses w = rs @ rest \<Longrightarrow>
   \<exists>w'. request_loop c ep ps rc p acc w = (Returned (acc @ concat (map page_data rs)), w')
      \<and> responses w' = rest
      \<and> requests (trace w') = requests (trace w) @ map (page_request c ep ps) [p..<Suc K]
      \<and> requestCount w' = requestCount w + length rs
      \<and> sheets w' = sheets w \<and> stored_key w' = stored_key w"
proof (induction rs arbitrary: p acc w)
  case Nil
  then show ?case by simp
next
  case (Cons r rs)
  from Cons.prems have pg: "is_page K p r" and rest_pg: "paged K (Suc p) rs" by simp_all
  from Cons.prems have rw: "responses w = r # (rs @ rest)" by simp
  obtain w1 where tb: "try_block c ep ps rc p acc w = (Falls_through (p < K) (Suc p) (acc @ page_data r), w1)"
    and r1: "responses w1 = rs @ rest"
    and q1: "requests (trace w1) = requests (trace w) @ [page_request c ep ps p]"
    and n1: "requestCount w1 = Suc (requestCount w)"
    and s1: "sheets w1 = sheets w" and k1: "stored_key w1 = stored_key w"
    using try_block_page [OF pg rw, of c ep ps rc acc] by blast
  show ?case
  proof (cases "rs = []")
    case True
    with Cons.prems have "p = K" by simp
    with True tb r1 q1 n1 s1 k1 show ?thesis
      by (subst request_loop.simps) simp
  next
    case False
    then have pos: "length rs > 0" by simp
    from Cons.prems have len: "Suc p + length rs = Suc K" by simp
    from pos len have lt: "p < K" by arith
    obtain w' where
      rl: "request_loop c ep ps rc (Suc p) (acc @ page_data r) w1 =
             (Returned ((acc @ page_data r) @ concat (map page_data rs)), w')"
      and r2: "responses w' = rest"
      and q2: "requests (trace w') = requests (trace w1) @ map (page_request c ep ps) [Suc p..<Suc K]"
      and n2: "requestCount w' = requestCount w1 + length rs"
      and s2: "sheets w' = sheets w1" and k2: "stored_key w' = stored_key w1"
      using Cons.IH [OF rest_pg False len r1, of "acc @ page_data r"] by blast
    have up: "[p..<Suc K] = p # [Suc p..<Suc K]" using lt by (simp add: upt_conv_Cons)
    show ?thesis
      using tb lt rl r2 q2 n2 s2 k2 q1 n1 s1 k1 up
      by (subst request_loop.simps) simp
  qed
qed

lemma api_request_loop_pages:
  "paged K p rs \<Longrightarrow> rs \<noteq> [] \<Longrightarrow> p + length rs = Suc K \<Longrightarrow> responses w = rs @ rest \<Longrightarrow>
   \<exists>w'. api_request_loop cfg ep ps p acc w = (Returned (acc @ concat (map page_data rs)), w')
      \<and> responses w' = rest
      \<and> requests (trace w') = requests (trace w) @ map (api_page_request cfg ep ps) [p..<Suc K]
      \<and> sheets w' = sheets w \<and> stored_key w' = stored_key w"
proof (induction rs arbitrary: p acc w)
  case Nil
  then show ?case by simp
next
  case (Cons r rs)
  from Cons.prems have pg: "is_page K p r" and rest_pg: "paged K (Suc p) rs" by simp_all
  from Cons.prems have rw: "responses w = r # (rs @ rest)" by simp
  from pg obtain h pr d where r: "r = Response h" and h200: "responseCode h = 200"
    and ph: "parsed h = Inr pr" and dt: "data pr = Some d" and dne: "d \<noteq> []"
    and mt: "meta pr = Some \<lparr>current_page = int p, last_page = int K\<rparr>"
    by (auto simp: is_page_def split: fetch_result.splits sum.splits option.splits)
  have pd: "page_data r = d" using r ph dt by (simp add: page_data_def)
  have ps: "page_step pr p acc = (p < K, Suc p, acc @ d)"
    using dt dne mt by (cases d) (simp_all add: page_step_def)
  let ?w3 = "w\<lparr>trace := trace w @ [Fetch (api_page_request cfg ep ps p)], responses := rs @ rest\<rparr>"
  show ?case
  proof (cases "rs = []")
    case True
    with Cons.prems have "p = K" by simp
    with True r h200 ph ps pd rw show ?thesis
      by (subst api_request_loop.simps)
         (simp add: Let_def requests_append api_page_request_def)
  next
    case False
    then have pos: "length rs > 0" by simp
    from Cons.prems have len: "Suc p + length rs = Suc K" by simp
    from pos len have lt: "p < K" by arith
    have r3: "responses (sleep 500 ?w3) = rs @ rest" by (simp add: sleep_def)
    obtain w' where
      rl: "api_request_loop cfg ep ps (Suc p) (acc @ page_data r) (sleep 500 ?w3) =
             (Returned ((acc @ page_data r) @ concat (map page_data rs)), w')"
      and r2: "responses w' = rest"
      and q2: "requests (trace w') = requests (trace (sleep 500 ?w3)) @ map (api_page_request cfg ep ps) [Suc p..<Suc K]"
      and s2: "sheets w' = sheets (sleep 500 ?w3)" and k2: "stored_key w' = stored_key (sleep 500 ?w3)"
      using Cons.IH [OF rest_pg False len r3, of "acc @ page_data r"] by blast
    have up: "[p..<Suc K] = p # [Suc p..<Suc K]" using lt by (simp add: upt_conv_Cons)
    have q3: "requests (trace (sleep 500 ?w3)) = requests (trace w) @ [api_page_request cfg ep ps p]"
      by (simp add: sleep_def requests_append)
    have s3: "sheets (sleep 500 ?w3) = sheets w" "stored_key (sleep 500 ?w3) = stored_key w"
      by (simp_all add: sleep_def)
    show ?thesis
      using r h200 ph ps pd rw lt rl r2 q2 s2 k2 q3 s3 up
      by (subst api_request_loop.simps)
         (simp add: Let_def api_page_request_def)
  qed
qed

lemma field_set_prop: "field (set_prop k v ps) k = v"
  by (induction ps) (auto simp: field_def)

lemma page_param: "param (page_request c ep ps p) ''page'' = JNum (int p)"
  by (simp add: param_def page_request_def paginationParams_def field_set_prop)

lemma api_page_param: "param (api_page_request cfg ep ps p) ''page'' = JNum (int p)"
  by (simp add: param_def api_page_request_def paginationParams_def field_set_prop)

text \<open>
  C1, as the code has it. Both clients go on while the \<open>meta\<close> of the answer says
  \<open>current_page < last_page\<close>; they do not count the pages themselves. So the number
  of requests is \<open>K\<close> when the answers number their pages:
  when the server answers the requests of one fetch with the pages 1 to \<open>K\<close> of a
  resource, each with status 200, a non-empty \<open>data\<close> array and a \<open>meta\<close> giving
  its number and \<open>last_page = K\<close>, then \<open>makeRequest\<close> of Setup.js and
  \<open>makeApiRequest\<close> of Code.js both return; they issue exactly \<open>K\<close> requests, which
  ask for the pages 1, 2, ..., \<open>K\<close> in this order; they consume exactly these answers;
  and the data returned is the concatenation of the pages' arrays in order, so that its
  length is the sum of the lengths of the pages.
\<close>

theorem pagination_K_pages:
  assumes "paged K 1 rs" and "length rs = K" and "rs \<noteq> []" and "responses w = rs @ rest"
  shows "(\<exists>w'. makeRequest c ep ps rc w = (Returned (concat (map page_data rs)), w')
            \<and> requests (trace w') = requests (trace w) @ map (page_request c ep ps) [1..<Suc K]
            \<and> responses w' = rest)
       \<and> (\<exists>w'. makeApiRequest cfg ep ps w = (Returned (concat (map page_data rs)), w')
            \<and> requests (trace w') = requests (trace w) @ map (api_page_request cfg ep ps) [1..<Suc K]
            \<and> responses w' = rest)
       \<and> map (\<lambda>p. param (page_request c ep ps p) ''page'') [1..<Suc K] = map (\<lambda>p. JNum (int p)) [1..<Suc K]
       \<and> map (\<lambda>p. param (api_page_request cfg ep ps p) ''page'') [1..<Suc K] = map (\<lambda>p. JNum (int p)) [1..<Suc K]
       \<and> length [1..<Suc K] = K
       \<and> length (concat (map page_data rs)) = sum_list (map (\<lambda>r. length (page_data r)) rs)"
proof -
  have len: "1 + length rs = Suc K" using assms(2) by simp
  have a: "\<exists>w'. makeRequest c ep ps rc w = (Returned (concat (map page_data rs)), w')
            \<and> requests (trace w') = requests (trace w) @ map (page_request c ep ps) [1..<Suc K]
            \<and> responses w' = rest"
    using request_loop_pages [OF assms(1) assms(3) len assms(4), of c ep ps rc "[]"]
    unfolding makeRequest_def by auto
  have b: "\<exists>w'. makeApiRequest cfg ep ps w = (Returned (concat (map page_data rs)), w')
            \<and> requests (trace w') = requests (trace w) @ map (api_page_request cfg ep ps) [1..<Suc K]
            \<and> responses w' = rest"
    using api_request_loop_pages [OF assms(1) assms(3) len assms(4), of cfg ep ps "[]"]
    unfolding makeApiRequest_def by auto
  have c: "length (concat (map page_data rs)) = sum_list (map (\<lambda>r. length (page_data r)) rs)"
    by (simp add: length_concat comp_def)
  show ?thesis using a b c by (simp add: page_param api_page_param)
qed

theorem pagination_K_pages_witness:
  "paged 2 1 [page_of 1 2 [rec 1], page_of 2 2 [rec 2]]
   \<and> (\<exists>w'. makeRequest sample_client (JStr ''/affiliates'') [] 0
             (sample_world [page_of 1 2 [rec 1], page_of 2 2 [rec 2]]) = (Returned [rec 1, rec 2], w')
          \<and> map (\<lambda>r. param r ''page'') (requests (trace w')) = [JNum 1, JNum 2])
   \<and> (\<exists>w'. makeApiRequest CONFIG (JStr ''/affiliates'') []
             (sample_world [page_of 1 2 [rec 1], page_of 2 2 [rec 2]]) = (Returned [rec 1, rec 2], w'))"
proof -
  have p: "paged 2 1 [page_of 1 2 [rec 1], page_of 2 2 [rec 2]]"
    by (simp add: is_page_def page_of_def)
  have u: "[1..<Suc 2] = [1, 2]" by (simp add: upt_rec)
  show ?thesis
    using p pagination_K_pages [where K = 2 and rs = "[page_of 1 2 [rec 1], page_of 2 2 [rec 2]]"
        and w = "sample_world [page_of 1 2 [rec 1], page_of 2 2 [rec 2]]" and rest = "[]"
        and c = sample_client and ep = "JStr ''/affiliates''" and ps = "[]" and rc = 0
        and cfg = CONFIG] u
    by (auto simp: page_data_def page_of_def sample_world_def page_param)
qed

lemma request_loop_prefix:
  "paged K p pre \<Longrightarrow> p + length pre \<le> K \<Longrightarrow> responses w = pre @ rest \<Longrightarrow>
   \<exists>w1. request_loop c ep ps rc p acc w
           = request_loop c ep ps rc (p + length pre) (acc @ concat (map page_data pre)) w1
      \<and> responses w1 = rest
      \<and> requests (trace w1) = requests (trace w) @ map (page_request c ep ps) [p..<p + length pre]
      \<and> requestCount w1 = requestCount w + length pre
      \<and> sheets w1 = sheets w \<and> stored_key w1 = stored_key w"
proof (induction pre arbitrary: p acc w)
  case Nil
  then show ?case by auto
next
  case (Cons r pre)
  from Cons.prems have pg: "is_page K p r" and rest_pg: "paged K (Suc p) pre"
    and lt: "p < K" and le: "Suc p + length pre \<le> K" by simp_all
  from Cons.prems have rw: "responses w = r # (pre @ rest)" by simp
  obtain w0 where tb: "try_block c ep ps rc p acc w = (Falls_through (p < K) (Suc p) (acc @ page_data r), w0)"
    and r0: "responses w0 = pre @ rest"
    and q0: "requests (trace w0) = requests (trace w) @ [page_request c ep ps p]"
    and n0: "requestCount w0 = Suc (requestCount w)"
    and s0: "sheets w0 = sheets w" and k0: "stored_key w0 = stored_key w"
    using try_block_page [OF pg rw, of c ep ps rc acc] by blast
  obtain w1 where
    rl: "request_loop c ep ps rc (Suc p) (acc @ page_data r) w0 =
           request_loop c ep ps rc (Suc p + length pre) ((acc @ page_data r) @ concat (map page_data pre)) w1"
    and r1: "responses w1 = rest"
    and q1: "requests (trace w1) = requests (trace w0) @ map (page_request c ep ps) [Suc p..<Suc p + length pre]"
    and n1: "requestCount w1 = requestCount w0 + length pre"
    and s1: "sheets w1 = sheets w0" and k1: "stored_key w1 = stored_key w0"
    using Cons.IH [OF rest_pg le r0, of "acc @ page_data r"] by blast
  have up: "[p..<p + length (r # pre)] = p # [Suc p..<Suc p + length pre]"
    by (subst upt_rec) simp
  have step: "request_loop c ep ps rc p acc w = request_loop c ep ps rc (Suc p) (acc @ page_data r) w0"
    using tb lt by (subst request_loop.simps) simp
  show ?case
    using step rl r1 q1 n1 s1 k1 q0 n0 s0 k0 up by (intro exI [of _ w1]) simp
qed

lemma try_block_429:
  assumes "responses w = Response h # rest" "responseCode h = 429"
  shows "try_block c ep ps rc p acc w =
               (if rc < maxRetries c then (Retry_429, sleep (2 ^ rc * 1000) (after_fetch c ep ps p w))
                else (Throws RateLimitExceeded, after_fetch c ep ps p w))"
  using assms
  by (auto simp: try_block_def sleep_def Let_def after_fetch_def page_request_def)

lemma after_fetch_simps:
  "responses (after_fetch c ep ps p w) = tl (responses w)"
  "requests (trace (after_fetch c ep ps p w)) = requests (trace w) @ [page_request c ep ps p]"
  "requestCount (after_fetch c ep ps p w) = Suc (requestCount w)"
  "sheets (after_fetch c ep ps p w) = sheets w"
  "stored_key (after_fetch c ep ps p w) = stored_key w"
  by (simp_all add: after_fetch_def requests_append)

lemma request_loop_429:
  assumes "responses w = Response h # rest" "responseCode h = 429"
  shows "request_loop c ep ps rc p acc w =
               (if rc < maxRetries c
                then handle_retry c ep ps rc
                       (makeRequest c ep ps (Suc rc) (sleep (2 ^ rc * 1000) (after_fetch c ep ps p w)))
                else (Thrown RateLimitExceeded, after_fetch c ep ps p w))"
  using try_block_429 [OF assms, of c ep ps rc p acc]
  by (subst request_loop.simps)
     (auto simp: handle_retry_def makeRequest_def split: prod.splits completion.splits)

text \<open>
  C1, as stated, fails: it asks of the answers only a non-empty \<open>data\<close> array and
  \<open>last_page = K\<close>. With two answers that both carry \<open>current_page = 2\<close> and
  \<open>last_page = 2\<close>, each client stops after the first: it issues one request, not two,
  and returns the records of the first answer alone.
\<close>

theorem pagination_current_page_counterexample:
  "fst (makeRequest sample_client (JStr ''/affiliates'') [] 0
          (sample_world [page_of 2 2 [rec 1], page_of 2 2 [rec 2]]))
     = Returned [rec 1]
   \<and> pages_asked (trace (snd (makeRequest sample_client (JStr ''/affiliates'') [] 0
          (sample_world [page_of 2 2 [rec 1], page_of 2 2 [rec 2]]))))
     = [JNum 1]
   \<and> fst (makeApiRequest CONFIG (JStr ''/affiliates'') []
          (sample_world [page_of 2 2 [rec 1], page_of 2 2 [rec 2]]))
     = Returned [rec 1]
   \<and> pages_asked (trace (snd (makeApiRequest CONFIG (JStr ''/affiliates'') []
          (sample_world [page_of 2 2 [rec 1], page_of 2 2 [rec 2]]))))
     = [JNum 1]"
  by code_simp

section \<open>Rate limiting\<close>

text \<open>
  A server that answers 429 to every request exhausts the budget: from retry count
  \<open>rc\<close> the client asks \<open>maxRetries - rc + 1\<close> times and then fails with the rate-limit
  error, which every calling frame passes on.
\<close>

lemma rate_limit_exhausted:
  "n = maxRetries c - rc \<Longrightarrow> rc \<le> maxRetries c \<Longrightarrow> length rs = Suc n \<Longrightarrow> list_all is_429 rs \<Longrightarrow>
   responses w = rs @ rest \<Longrightarrow>
   \<exists>w'. makeRequest c ep ps rc w = (Thrown RateLimitExceeded, w') \<and> responses w' = rest
        \<and> length (requests (trace w')) = length (requests (trace w)) + length rs"
proof (induction n arbitrary: rc rs w)
  case 0
  then obtain r where rs: "rs = [r]" by (cases rs) simp_all
  with 0 have r429: "is_429 r" by simp
  from r429 obtain h where r: "r = Response h" and c4: "responseCode h = 429"
    by (auto simp: is_429_def split: fetch_result.splits)
  from 0 rs r have rw: "responses w = Response h # rest" by simp
  from 0 have nlt: "\<not> rc < maxRetries c" by simp
  show ?case
    using request_loop_429 [OF rw c4, of c ep ps rc 1 "[]"] nlt rw rs
    by (simp add: makeRequest_def after_fetch_simps)
next
  case (Suc n)
  then obtain r rs' where rs: "rs = r # rs'" and len: "length rs' = Suc n" by (cases rs) simp_all
  with Suc.prems have r429: "is_429 r" and all: "list_all is_429 rs'" by simp_all
  from r429 obtain h where r: "r = Response h" and c4: "responseCode h = 429"
    by (auto simp: is_429_def split: fetch_result.splits)
  from Suc.prems rs r have rw: "responses w = Response h # (rs' @ rest)" by simp
  from Suc.prems have lt: "rc < maxRetries c" and n: "n = maxRetries c - Suc rc"
    and le: "Suc rc \<le> maxRetries c" by simp_all
  let ?w1 = "sleep (2 ^ rc * 1000) (after_fetch c ep ps 1 w)"
  have r1: "responses ?w1 = rs' @ rest" using rw by (simp add: sleep_def after_fetch_simps)
  obtain w' where inner: "makeRequest c ep ps (Suc rc) ?w1 = (Thrown RateLimitExceeded, w')"
    and r2: "responses w' = rest"
    and q2: "length (requests (trace w')) = length (requests (trace ?w1)) + length rs'"
    using Suc.IH [OF n le len all r1] by blast
  have q1: "length (requests (trace ?w1)) = Suc (length (requests (trace w)))"
    by (simp add: sleep_def after_fetch_simps requests_append)
  have "makeRequest c ep ps rc w = (Thrown RateLimitExceeded, w')"
    using request_loop_429 [OF rw c4, of c ep ps rc 1 "[]"] lt inner
    by (simp add: makeRequest_def handle_retry_def)
  then show ?case using r2 q2 q1 rs by simp
qed

text \<open>
  The branch for status 429 (lines 421-430) is entered when the platform hands the 429
  over as a response. Then, if the retry count is below \<open>maxRetries\<close>, the client
  sleeps \<open>2 ^ retryCount\<close> seconds and starts the whole fetch again with the retry
  count raised by one: from page 1 and with an empty accumulation, so that the pages
  taken before are asked for again and the data returned is that of the second pass
  alone. What the second pass throws goes through the handler of the first. If the retry
  count is not below \<open>maxRetries\<close>, the fetch fails with the rate-limit error and
  issues no further request.
\<close>

lemma rate_limit_response_restarts:
  assumes "paged K 1 pre" and "length pre < K" and "responseCode h = 429"
    and "responses w = pre @ Response h # rest"
  shows "\<exists>w1. responses w1 = rest
        \<and> requests (trace w1) = requests (trace w) @ map (page_request c ep ps) [1..<Suc (Suc (length pre))]
        \<and> requestCount w1 = requestCount w + length pre + 1
        \<and> (rc < maxRetries c \<longrightarrow>
             makeRequest c ep ps rc w =
               handle_retry c ep ps rc (makeRequest c ep ps (Suc rc) (sleep (2 ^ rc * 1000) w1)))
        \<and> (\<not> rc < maxRetries c \<longrightarrow> makeRequest c ep ps rc w = (Thrown RateLimitExceeded, w1))
        \<and> (rc < maxRetries c \<and> paged K' 1 rs \<and> length rs = K' \<and> rs \<noteq> [] \<and> rest = rs @ rest' \<longrightarrow>
             (\<exists>w'. makeRequest c ep ps rc w = (Returned (concat (map page_data rs)), w')
                \<and> requests (trace w') =
                    requests (trace w1) @ map (page_request c ep ps) [1..<Suc K']
                \<and> responses w' = rest'))"
proof -
  have le: "1 + length pre \<le> K" using assms(2) by simp
  obtain w0 where
    eq: "request_loop c ep ps rc 1 [] w
           = request_loop c ep ps rc (1 + length pre) ([] @ concat (map page_data pre)) w0"
    and r0: "responses w0 = Response h # rest"
    and q0: "requests (trace w0) = requests (trace w) @ map (page_request c ep ps) [1..<1 + length pre]"
    and n0: "requestCount w0 = requestCount w + length pre"
    using request_loop_prefix [OF assms(1) le assms(4), of c ep ps rc "[]"] by blast
  let ?p = "1 + length pre"
  let ?w1 = "after_fetch c ep ps ?p w0"
  have at: "request_loop c ep ps rc ?p ([] @ concat (map page_data pre)) w0 =
               (if rc < maxRetries c
                then handle_retry c ep ps rc
                       (makeRequest c ep ps (Suc rc) (sleep (2 ^ rc * 1000) ?w1))
                else (Thrown RateLimitExceeded, ?w1))"
    by (rule request_loop_429 [OF r0 assms(3)])
  have r1: "responses ?w1 = rest" using r0 by (simp add: after_fetch_simps)
  have q1: "requests (trace ?w1) =
              requests (trace w) @ map (page_request c ep ps) [1..<Suc (Suc (length pre))]"
    using q0 by (simp add: after_fetch_simps)
  have n1: "requestCount ?w1 = requestCount w + length pre + 1"
    using n0 by (simp add: after_fetch_simps)
  have retry: "rc < maxRetries c \<longrightarrow>
             makeRequest c ep ps rc w =
               handle_retry c ep ps rc (makeRequest c ep ps (Suc rc) (sleep (2 ^ rc * 1000) ?w1))"
    using eq at by (simp add: makeRequest_def)
  have stop: "\<not> rc < maxRetries c \<longrightarrow> makeRequest c ep ps rc w = (Thrown RateLimitExceeded, ?w1)"
    using eq at by (simp add: makeRequest_def)
  have again: "rc < maxRetries c \<and> paged K' 1 rs \<and> length rs = K' \<and> rs \<noteq> [] \<and> rest = rs @ rest' \<longrightarrow>
             (\<exists>w'. makeRequest c ep ps rc w = (Returned (concat (map page_data rs)), w')
                \<and> requests (trace w') =
                    requests (trace ?w1) @ map (page_request c ep ps) [1..<Suc K']
                \<and> responses w' = rest')"
  proof (intro impI, elim conjE)
    assume lt: "rc < maxRetries c" and pg: "paged K' 1 rs" and len: "length rs = K'"
      and ne: "rs \<noteq> []" and rst: "rest = rs @ rest'"
    let ?w2 = "sleep (2 ^ rc * 1000) ?w1"
    have r2: "responses ?w2 = rs @ rest'" using r1 rst by (simp add: sleep_def)
    have len': "1 + length rs = Suc K'" using len by simp
    obtain w' where
      rl: "request_loop c ep ps (Suc rc) 1 [] ?w2 = (Returned ([] @ concat (map page_data rs)), w')"
      and r3: "responses w' = rest'"
      and q3: "requests (trace w') = requests (trace ?w2) @ map (page_request c ep ps) [1..<Suc K']"
      using request_loop_pages [OF pg ne len' r2, of c ep ps "Suc rc" "[]"] by blast
    have q2: "requests (trace ?w2) = requests (trace ?w1)"
      by (simp add: sleep_def requests_append)
    have "makeRequest c ep ps rc w = (Returned (concat (map page_data rs)), w')"
      using retry lt rl by (simp add: makeRequest_def handle_retry_def)
    then show "\<exists>w'. makeRequest c ep ps rc w = (Returned (concat (map page_data rs)), w')
                \<and> requests (trace w') =
                    requests (trace ?w1) @ map (page_request c ep ps) [1..<Suc K']
                \<and> responses w' = rest'"
      using r3 q3 q2 by auto
  qed
  show ?thesis
    using r1 q1 n1 retry stop again by (intro exI [of _ ?w1]) blast
qed

text \<open>
  C2. On the platform the clients run on, a status 429 does not come back as a response:
  the options of the request do not mute HTTP exceptions, so \<open>UrlFetchApp.fetch\<close>
  raises it. The handler retries only an error whose text holds \<open>timeout\<close>; this
  one it logs and throws again. With page 1 of 2 taken and the request for page 2
  answered by that exception, the fetch ends by throwing it: the trace holds the two
  requests, the pause between pages and the delay before a request, but no backoff delay
  and no third request, and the answer that a retry would have received is left unread.
\<close>

theorem rate_limit_thrown_no_retry:
  "fst (makeRequest sample_client (JStr ''/affiliates'') [] 0
          (sample_world [page_of 1 2 [rec 1],
                         FetchThrows (host_status_error ''https://aff-api.uppromote.com'' 429 ''Too Many Requests''),
                         page_of 2 2 [rec 2]]))
     = Thrown (Exception (host_status_error ''https://aff-api.uppromote.com'' 429 ''Too Many Requests''))
   \<and> trace (snd (makeRequest sample_client (JStr ''/affiliates'') [] 0
          (sample_world [page_of 1 2 [rec 1],
                         FetchThrows (host_status_error ''https://aff-api.uppromote.com'' 429 ''Too Many Requests''),
                         page_of 2 2 [rec 2]])))
     = [Fetch (page_request sample_client (JStr ''/affiliates'') [] 1), Sleep 500, Sleep 1000,
        Fetch (page_request sample_client (JStr ''/affiliates'') [] 2)]
   \<and> responses (snd (makeRequest sample_client (JStr ''/affiliates'') [] 0
          (sample_world [page_of 1 2 [rec 1],
                         FetchThrows (host_status_error ''https://aff-api.uppromote.com'' 429 ''Too Many Requests''),
                         page_of 2 2 [rec 2]])))
     = [page_of 2 2 [rec 2]]"
  by code_simp

section \<open>Failures and the connection test\<close>

lemma str_includes_sublist: "str_includes xs s = sublist s xs"
  by (induction xs) (simp_all add: sublist_Cons_right)

lemma sublist_split_at:
  assumes "sublist s (a @ x # b)" and "x \<notin> set s"
  shows "sublist s a \<or> sublist s b"
proof -
  from assms(1) obtain ps ss where eq: "a @ x # b = ps @ s @ ss" by (auto simp: sublist_def)
  show ?thesis
  proof (cases "length ps + length s \<le> length a")
    case True
    from eq have "take (length ps + length s) (a @ x # b) = ps @ s" by simp
    with True have "take (length ps + length s) a = ps @ s" by simp
    then have "a = ps @ s @ drop (length ps + length s) a"
      by (metis append_assoc append_take_drop_id)
    then show ?thesis unfolding sublist_def by blast
  next
    case False
    have "length a < length ps"
    proof (rule ccontr)
      assume "\<not> length a < length ps"
      then have 1: "length ps \<le> length a" and 2: "length a - length ps < length s"
        using False by simp_all
      have "(a @ x # b) ! length a = x" by simp
      moreover have "(ps @ s @ ss) ! length a = s ! (length a - length ps)"
        using 1 2 by (simp add: nth_append)
      ultimately have "s ! (length a - length ps) = x" using eq by simp
      then have "x \<in> set s" using 2 by (metis nth_mem)
      with assms(2) show False by simp
    qed
    then have "drop (Suc (length a)) (ps @ s @ ss) = drop (Suc (length a)) ps @ s @ ss"
      by simp
    moreover have "drop (Suc (length a)) (a @ x # b) = b" by simp
    ultimately have "b = drop (Suc (length a)) ps @ s @ ss" using eq by simp
    then show ?thesis unfolding sublist_def by blast
  qed
qed

lemma set_show_nat: "set (show_nat n) \<subseteq> set ''0123456789''"
proof (induction n rule: show_nat.induct)
  case (1 n)
  have d: "\<And>k. k < 10 \<Longrightarrow> ''0123456789'' ! k \<in> set ''0123456789''"
    by (rule nth_mem) simp
  show ?case
  proof (cases "n < 10")
    case True
    then show ?thesis using d [of n] by (subst show_nat.simps) simp
  next
    case False
    have "n mod 10 < 10" by simp
    then show ?thesis using False 1 d [of "n mod 10"]
      by (subst show_nat.simps) simp
  qed
qed

lemma api_error_text_timeout:
  "str_includes (error_toString (ApiError code body)) ''timeout'' = str_includes body ''timeout''"
proof -
  let ?s = "''timeout''"
  let ?A0 = "''Error: API request failed with status''"
  let ?D = "show_nat code @ '':''"
  have shape: "error_toString (ApiError code body) = (?A0 @ CHR '' '' # ?D) @ CHR '' '' # body"
    by simp
  have sp: "CHR '' '' \<notin> set ?s" by simp
  have noA: "\<not> sublist ?s ?A0"
    unfolding str_includes_sublist [symmetric] by simp
  have noD: "\<not> sublist ?s ?D"
  proof
    assume "sublist ?s ?D"
    then have "set ?s \<subseteq> set ?D" by (rule set_mono_sublist)
    then have "CHR ''t'' \<in> set ?D" by auto
    then show False using set_show_nat [of code] by auto
  qed
  have "sublist ?s ((?A0 @ CHR '' '' # ?D) @ CHR '' '' # body) \<longleftrightarrow> sublist ?s body"
  proof
    assume "sublist ?s ((?A0 @ CHR '' '' # ?D) @ CHR '' '' # body)"
    then have "sublist ?s (?A0 @ CHR '' '' # ?D) \<or> sublist ?s body"
      using sp by (rule sublist_split_at)
    moreover have "\<not> sublist ?s (?A0 @ CHR '' '' # ?D)"
      using sublist_split_at [OF _ sp, of ?A0 ?D] noA noD by blast
    ultimately show "sublist ?s body" by blast
  next
    assume "sublist ?s body"
    then obtain ps ss where "body = ps @ ?s @ ss" by (auto simp: sublist_def)
    then have "(?A0 @ CHR '' '' # ?D) @ CHR '' '' # body
                 = ((?A0 @ CHR '' '' # ?D) @ CHR '' '' # ps) @ ?s @ ss" by simp
    then show "sublist ?s ((?A0 @ CHR '' '' # ?D) @ CHR '' '' # body)"
      unfolding sublist_def by blast
  qed
  then show ?thesis unfolding str_includes_sublist shape .
qed

lemma try_block_api_error:
  assumes "responses w = Response h # rest" "responseCode h \<noteq> 200" "responseCode h \<noteq> 429"
  shows "try_block c ep ps rc p acc w =
           (Throws (ApiError (responseCode h) (contentText h)), after_fetch c ep ps p w)"
  using assms
  by (auto simp: try_block_def sleep_def Let_def after_fetch_def page_request_def)

lemma api_error_handling:
  assumes "responses w = Response h # rest" "responseCode h \<noteq> 200" "responseCode h \<noteq> 429"
  shows "request_loop c ep ps rc p acc w =
     (if rc < maxRetries c \<and> str_includes (contentText h) ''timeout''
      then makeRequest c ep ps (Suc rc) (sleep 2000 (after_fetch c ep ps p w))
      else (Thrown (ApiError (responseCode h) (contentText h)), after_fetch c ep ps p w))"
  using try_block_api_error [OF assms, of c ep ps rc p acc]
  by (subst request_loop.simps) (simp add: api_error_text_timeout makeRequest_def del: error_toString.simps)

lemma limit_overridden:
  "param (page_request c ep ((''limit'', v) # ps) p) ''limit'' = JNum 100"
  by (simp add: param_def page_request_def paginationParams_def field_def)

text \<open>
  C3. A response with a status other than 200 and 429 makes the fetch throw an error with
  the status and the body; but the throw stands inside the \<open>try\<close> block, and the
  handler, which retries whatever error has \<open>timeout\<close> in its text, reads the body as
  part of that text. So a status 500 with the body \<open>upstream timeout\<close>, received with
  retries left, is not a failure: the client sleeps two seconds, asks again and returns
  the data of the second answer. With the body \<open>boom\<close> the same status fails at once,
  after one request.
\<close>

theorem api_error_timeout_body_retries:
  "fst (makeRequest sample_client (JStr ''/coupons'') [] 0
          (sample_world [status_response 500 ''upstream timeout'', page_of 1 1 [rec 1]]))
     = Returned [rec 1]
   \<and> trace (snd (makeRequest sample_client (JStr ''/coupons'') [] 0
          (sample_world [status_response 500 ''upstream timeout'', page_of 1 1 [rec 1]])))
     = [Fetch (page_request sample_client (JStr ''/coupons'') [] 1), Sleep 2000, Sleep 1000,
        Fetch (page_request sample_client (JStr ''/coupons'') [] 1)]
   \<and> fst (makeRequest sample_client (JStr ''/coupons'') [] 0
          (sample_world [status_response 500 ''boom'', page_of 1 1 [rec 1]]))
     = Thrown (ApiError 500 ''boom'')
   \<and> trace (snd (makeRequest sample_client (JStr ''/coupons'') [] 0
          (sample_world [status_response 500 ''boom'', page_of 1 1 [rec 1]])))
     = [Fetch (page_request sample_client (JStr ''/coupons'') [] 1)]"
  by code_simp

text \<open>
  C8. The connection tests of Setup.js and Code.js pass \<open>{ limit: 1 }\<close>, but the
  client writes \<open>limit: 100\<close> after spreading the caller's parameters, so every request
  they send asks for 100 records, and against a resource of two pages they send two
  requests. The earlier copy of Code.js, whose client sends the caller's parameters as
  they are, does send \<open>limit = 1\<close> in a single request.
\<close>

theorem testConnection_asks_100:
  "limits_asked (trace (snd (testApiConnectionSecure CONFIG
       (sample_world [page_of 1 2 [rec 1], page_of 2 2 [rec 2]])))) = [JNum 100, JNum 100]
   \<and> limits_asked (trace (snd (testApiConnection (CONFIG\<lparr>API_KEY := ''k''\<rparr>)
       (sample_world [page_of 1 2 [rec 1], page_of 2 2 [rec 2]])))) = [JNum 100, JNum 100]
   \<and> limits_asked (trace (snd (testApiConnection_earlier (CONFIG_earlier\<lparr>API_KEY := ''k''\<rparr>)
       (sample_world [page_of 1 2 [rec 1], page_of 2 2 [rec 2]])))) = [JNum 1]"
  by code_simp

section \<open>The run: properties\<close>

lemma urls_of_requests:
  "requests tr' = requests tr @ map (page_request c ep ps) ns \<Longrightarrow>
   urls_asked tr' = urls_asked tr @ replicate (length ns) (baseUrl c @ js_toString ep)"
  by (simp add: urls_asked_def page_request_def map_replicate_const comp_def)

lemma writeDataWithFormatting_sheets:
  "sheets (writeDataWithFormatting name headers rows w) = (sheets w)(name \<mapsto> headers # rows)"
  by (cases rows)
     (simp_all add: writeDataWithFormatting_def sheet_clear_def sheet_setValues_def Let_def
        setValues_def)

lemma writeDataWithFormatting_frame:
  "responses (writeDataWithFormatting name headers rows w) = responses w"
  "trace (writeDataWithFormatting name headers rows w) = trace w"
  "stored_key (writeDataWithFormatting name headers rows w) = stored_key w"
  "requestCount (writeDataWithFormatting name headers rows w) = requestCount w"
  "refused (writeDataWithFormatting name headers rows w) = refused w"
  "open_error (writeDataWithFormatting name headers rows w) = open_error w"
  by (simp_all add: writeDataWithFormatting_def sheet_clear_def sheet_setValues_def Let_def)

lemma getOrCreateSheet_sheets:
  "sheets (getOrCreateSheet name w) =
     (sheets w)(name \<mapsto> (case sheets w name of None \<Rightarrow> [] | Some g \<Rightarrow> g))"
  by (auto simp: getOrCreateSheet_def split: option.splits)

lemma getOrCreateSheet_frame:
  "responses (getOrCreateSheet name w) = responses w"
  "trace (getOrCreateSheet name w) = trace w"
  "stored_key (getOrCreateSheet name w) = stored_key w"
  "requestCount (getOrCreateSheet name w) = requestCount w"
  "refused (getOrCreateSheet name w) = refused w"
  "open_error (getOrCreateSheet name w) = open_error w"
  by (simp_all add: getOrCreateSheet_def split: option.splits)

lemma paged_records_nonempty:
  "paged K p rs \<Longrightarrow> rs \<noteq> [] \<Longrightarrow> concat (map page_data rs) \<noteq> []"
  by (cases rs)
     (auto simp: is_page_def page_data_def split: fetch_result.splits sum.splits option.splits)

lemma try_block_empty_page:
  assumes "is_empty_page r" "responses w = r # rest"
  shows "try_block c ep ps rc p acc w = (Falls_through False p acc, after_fetch c ep ps p w)"
  using assms
  by (auto simp: try_block_def is_empty_page_def page_step_def sleep_def Let_def after_fetch_def
        page_request_def split: fetch_result.splits sum.splits)

lemma try_block_fetch_throws:
  assumes "responses w = FetchThrows t # rest"
  shows "\<exists>w1. try_block c ep ps rc p acc w = (Throws (Exception t), w1)
          \<and> responses w1 = rest \<and> sheets w1 = sheets w \<and> stored_key w1 = stored_key w
          \<and> requests (trace w1) = requests (trace w) @ [page_request c ep ps p]"
  using assms
  by (auto simp: try_block_def sleep_def Let_def page_request_def requests_append)

lemma try_block_frame:
  "try_block c ep ps rc p acc w = (b, w') \<Longrightarrow>
   sheets w' = sheets w \<and> stored_key w' = stored_key w \<and> refused w' = refused w
     \<and> open_error w' = open_error w"
  by (auto simp: try_block_def sleep_def Let_def
           split: list.splits fetch_result.splits if_splits sum.splits prod.splits)

lemma sleep_frame:
  "sheets (sleep ms w) = sheets w" "stored_key (sleep ms w) = stored_key w"
  "refused (sleep ms w) = refused w" "open_error (sleep ms w) = open_error w"
  "responses (sleep ms w) = responses w"
  by (simp_all add: sleep_def)

lemma request_loop_frame:
  "request_loop c ep ps rc p acc w = (out, w') \<Longrightarrow>
   sheets w' = sheets w \<and> stored_key w' = stored_key w \<and> refused w' = refused w
     \<and> open_error w' = open_error w"
proof (induction c ep ps rc p acc w arbitrary: out w' rule: request_loop.induct)
  case (1 c ep ps rc p acc w)
  obtain b w1 where tb: "try_block c ep ps rc p acc w = (b, w1)" by (cases "try_block c ep ps rc p acc w")
  note f1 = try_block_frame [OF tb]
  show ?case
  proof (cases b)
    case No_response
    with tb "1.prems" f1 show ?thesis by (subst (asm) request_loop.simps) auto
  next
    case (Falls_through more p' acc')
    show ?thesis
    proof (cases more)
      case True
      with tb Falls_through "1.prems"
      have "request_loop c ep ps rc p' acc' w1 = (out, w')"
        by (subst (asm) request_loop.simps) simp
      from "1.IH"(1) [OF tb [symmetric] Falls_through True this] f1 show ?thesis by simp
    next
      case False
      with tb Falls_through "1.prems" f1 show ?thesis
        by (subst (asm) request_loop.simps) auto
    qed
  next
    case Retry_429
    obtain o2 w2 where inner: "request_loop c ep ps (rc + 1) 1 [] w1 = (o2, w2)"
      by (cases "request_loop c ep ps (rc + 1) 1 [] w1")
    note f2 = "1.IH"(2) [OF tb [symmetric] Retry_429 inner]
    show ?thesis
    proof (cases o2)
      case (Thrown e)
      show ?thesis
      proof (cases "rc < maxRetries c \<and> str_includes (error_toString e) ''timeout''")
        case True
        with tb Retry_429 inner Thrown "1.prems"
        have again: "request_loop c ep ps (rc + 1) 1 [] (sleep 2000 w2) = (out, w')"
          by (subst (asm) request_loop.simps) simp
        from "1.IH"(3) [OF tb [symmetric] Retry_429 inner [symmetric] Thrown True again] f1 f2
        show ?thesis by (simp add: sleep_frame)
      next
        case False
        with tb Retry_429 inner Thrown "1.prems" f1 f2 show ?thesis
          by (subst (asm) request_loop.simps) auto
      qed
    next
      case (Returned d)
      with tb Retry_429 inner "1.prems" f1 f2 show ?thesis
        by (subst (asm) request_loop.simps) auto
    next
      case Unanswered
      with tb Retry_429 inner "1.prems" f1 f2 show ?thesis
        by (subst (asm) request_loop.simps) auto
    qed
  next
    case (Throws e)
    show ?thesis
    proof (cases "rc < maxRetries c \<and> str_includes (error_toString e) ''timeout''")
      case True
      with tb Throws "1.prems"
      have again: "request_loop c ep ps (rc + 1) 1 [] (sleep 2000 w1) = (out, w')"
        by (subst (asm) request_loop.simps) simp
      from "1.IH"(4) [OF tb [symmetric] Throws True again] f1
      show ?thesis by (simp add: sleep_frame)
    next
      case False
      with tb Throws "1.prems" f1 show ?thesis
        by (subst (asm) request_loop.simps) auto
    qed
  qed
qed

lemma makeRequest_frame:
  "makeRequest c ep ps rc w = (out, w') \<Longrightarrow>
   sheets w' = sheets w \<and> stored_key w' = stored_key w \<and> refused w' = refused w
     \<and> open_error w' = open_error w"
  unfolding makeRequest_def by (rule request_loop_frame)

lemma fetch_served:
  assumes ok: "ok_served s" and rw: "responses w = script s @ rest"
  shows "\<exists>w1. (failed s \<longrightarrow> (\<exists>e. makeRequest c ep [] 0 w = (Thrown e, w1)))
          \<and> (\<not> failed s \<longrightarrow> makeRequest c ep [] 0 w = (Returned (records_of s), w1))
          \<and> responses w1 = rest \<and> sheets w1 = sheets w \<and> stored_key w1 = stored_key w
          \<and> urls_asked (trace w1) =
                urls_asked (trace w) @ replicate (length (script s)) (baseUrl c @ js_toString ep)"
proof (cases s)
  case (Pages rs)
  with ok rw have pg: "paged (length rs) 1 rs" and ne: "rs \<noteq> []"
    and r: "responses w = rs @ rest" by simp_all
  have len: "1 + length rs = Suc (length rs)" by simp
  obtain w1 where "request_loop c ep [] 0 1 [] w = (Returned ([] @ concat (map page_data rs)), w1)"
      "responses w1 = rest"
      "requests (trace w1) = requests (trace w) @ map (page_request c ep []) [1..<Suc (length rs)]"
      "sheets w1 = sheets w" "stored_key w1 = stored_key w"
    using request_loop_pages [OF pg ne len r, of c ep "[]" 0 "[]"] by blast
  moreover have "length [1..<Suc (length rs)] = length rs" using ne by (simp del: upt_Suc)
  ultimately show ?thesis
    using Pages urls_of_requests [of "trace w1" "trace w" c ep "[]" "[1..<Suc (length rs)]"]
    by (intro exI [of _ w1]) (simp add: makeRequest_def del: upt_Suc)
next
  case (No_records r)
  with ok rw have e: "is_empty_page r" and r: "responses w = r # rest" by simp_all
  have "request_loop c ep [] 0 1 [] w = (Returned [], after_fetch c ep [] 1 w)"
    using try_block_empty_page [OF e r, of c ep "[]" 0 1 "[]"]
    by (subst request_loop.simps) simp
  then show ?thesis using No_records r
    by (intro exI [of _ "after_fetch c ep [] 1 w"])
       (simp add: makeRequest_def after_fetch_simps urls_asked_def page_request_def)
next
  case (Failure r)
  with ok rw have f: "is_failure r" and r: "responses w = r # rest" by simp_all
  show ?thesis
  proof (cases r)
    case (Response h)
    with f have c2: "responseCode h \<noteq> 200" and c4: "responseCode h \<noteq> 429"
      and nt: "\<not> str_includes (contentText h) ''timeout''" by (simp_all add: is_failure_def)
    from r Response have rr: "responses w = Response h # rest" by simp
    have "request_loop c ep [] 0 1 [] w =
            (Thrown (ApiError (responseCode h) (contentText h)), after_fetch c ep [] 1 w)"
      using api_error_handling [OF rr c2 c4, of c ep "[]" 0 1 "[]"] nt by simp
    then show ?thesis using Failure rr
      by (intro exI [of _ "after_fetch c ep [] 1 w"])
         (simp add: makeRequest_def after_fetch_simps urls_asked_def page_request_def)
  next
    case (FetchThrows t)
    with f have nt: "\<not> str_includes t ''timeout''" by (simp add: is_failure_def)
    from r FetchThrows have rr: "responses w = FetchThrows t # rest" by simp
    obtain w1 where tb: "try_block c ep [] 0 1 [] w = (Throws (Exception t), w1)"
      and a: "responses w1 = rest" "sheets w1 = sheets w" "stored_key w1 = stored_key w"
        "requests (trace w1) = requests (trace w) @ [page_request c ep [] 1]"
      using try_block_fetch_throws [OF rr, of c ep "[]" 0 1 "[]"] by blast
    have "request_loop c ep [] 0 1 [] w = (Thrown (Exception t), w1)"
      using tb nt by (subst request_loop.simps) simp
    then show ?thesis using Failure a
      by (intro exI [of _ w1]) (simp add: makeRequest_def urls_asked_def page_request_def)
  qed
qed



lemma pull_served:
  assumes ok: "ok_served s" and rw: "responses w = script s @ rest"
    and wr: "has_records s \<longrightarrow> refused w name = None"
  shows "\<exists>w'. pullDataEnhanced c ep name hs pr w = (Returned (length (records_of s)), w')
          \<and> responses w' = rest \<and> stored_key w' = stored_key w
          \<and> refused w' = refused w \<and> open_error w' = open_error w
          \<and> sheets w' = (sheets w)(name := table_after s hs pr (sheets w name))
          \<and> urls_asked (trace w') =
                urls_asked (trace w) @ replicate (length (script s)) (baseUrl c @ js_toString ep)"
proof -
  obtain w1 where
    th: "failed s \<longrightarrow> (\<exists>e. makeRequest c ep [] 0 w = (Thrown e, w1))"
    and rt: "\<not> failed s \<longrightarrow> makeRequest c ep [] 0 w = (Returned (records_of s), w1)"
    and fr: "responses w1 = rest" "sheets w1 = sheets w" "stored_key w1 = stored_key w"
    and ur: "urls_asked (trace w1) =
                urls_asked (trace w) @ replicate (length (script s)) (baseUrl c @ js_toString ep)"
    using fetch_served [OF ok rw, of c ep] by blast
  show ?thesis
  proof (cases s)
    case (Pages rs)
    with ok have "paged (length rs) 1 rs" and "rs \<noteq> []" by simp_all
    then have ne: "concat (map page_data rs) \<noteq> []" by (rule paged_records_nonempty)
    from Pages rt have mr: "makeRequest c ep [] 0 w = (Returned (concat (map page_data rs)), w1)"
      by simp
    note f = makeRequest_frame [OF mr]
    from Pages wr have "refused w name = None" by simp
    with Pages ne mr fr ur f show ?thesis
      by (simp add: pullDataEnhanced_def Let_def writeDataWithFormatting_sheets
            writeDataWithFormatting_frame getOrCreateSheet_sheets getOrCreateSheet_frame)
  next
    case (No_records r)
    with rt have mr: "makeRequest c ep [] 0 w = (Returned [], w1)" by simp
    note f = makeRequest_frame [OF mr]
    from No_records mr fr ur f show ?thesis
      by (simp add: pullDataEnhanced_def Let_def getOrCreateSheet_sheets getOrCreateSheet_frame)
  next
    case (Failure r)
    with th obtain e where mr: "makeRequest c ep [] 0 w = (Thrown e, w1)" by auto
    note f = makeRequest_frame [OF mr]
    from Failure mr fr ur f show ?thesis
      by (simp add: pullDataEnhanced_def)
  qed
qed


lemma addSummarySheet_written:
  "refused w ''Summary'' = None \<Longrightarrow>
   \<exists>w'. addSummarySheet P d w = (Returned (), w')
      \<and> sheets w' = (sheets w)(''Summary'' \<mapsto> summaryData P d)
      \<and> responses w' = responses w \<and> trace w' = trace w \<and> stored_key w' = stored_key w"
  by (simp add: addSummarySheet_def getOrCreateSheet_def sheet_clear_def sheet_setValues_def
        setValues_def Let_def split: option.splits)










lemma run_pulls_served:
  assumes key: "truthy (stored_key w)" and base: "API_BASE_URL cfg \<noteq> []" and eps: "ENDPOINTS cfg \<noteq> []"
    and opn: "open_error w = None"
    and tabs: "refused w ''Affiliates'' = None" "refused w ''Referrals'' = None"
              "refused w ''Coupons'' = None" "refused w ''Payments'' = None"
    and oka: "ok_served sa" and okr: "ok_served sr" and okc: "ok_served sc" and okp: "ok_served sp"
    and rw: "responses w = script sa @ script sr @ script sc @ script sp @ rest"
  shows "\<exists>w4. pullUpPromoteDataEnhanced P cfg w
              = (case addSummarySheet P (counts_of sa sr sc sp) w4 of
                   (Unanswered, w5) \<Rightarrow> (Unanswered, w5)
                 | (Thrown e, w5) \<Rightarrow> (Thrown e, w5)
                 | (Returned u, w5) \<Rightarrow> (Returned (counts_of sa sr sc sp), w5))
          \<and> responses w4 = rest \<and> refused w4 = refused w
          \<and> urls_asked (trace w4) = urls_asked (trace w)
               @ replicate (length (script sa)) (API_BASE_URL cfg @ js_toString (ENDPOINT cfg ''AFFILIATES''))
               @ replicate (length (script sr)) (API_BASE_URL cfg @ js_toString (ENDPOINT cfg ''REFERRALS''))
               @ replicate (length (script sc)) (API_BASE_URL cfg @ js_toString (ENDPOINT cfg ''COUPONS''))
               @ replicate (length (script sp)) (API_BASE_URL cfg @ js_toString (ENDPOINT cfg ''PAYMENTS''))
          \<and> sheets w4 ''Affiliates'' = table_after sa affiliates_headers (affiliate_row P) (sheets w ''Affiliates'')
          \<and> sheets w4 ''Referrals'' = table_after sr referrals_headers (referral_row P) (sheets w ''Referrals'')
          \<and> sheets w4 ''Coupons'' = table_after sc coupons_headers (coupon_row P) (sheets w ''Coupons'')
          \<and> sheets w4 ''Payments'' = table_after sp payments_headers (payment_row P) (sheets w ''Payments'')
          \<and> sheets w4 ''Summary'' = sheets w ''Summary''"
proof -
  let ?c = "new_ApiClient (API_BASE_URL cfg) (js_toString (stored_key w))"
  let ?w0 = "w\<lparr>requestCount := 0\<rparr>"
  have b: "baseUrl ?c = API_BASE_URL cfg" by (simp add: new_ApiClient_def)
  have r0: "responses ?w0 = script sa @ (script sr @ script sc @ script sp @ rest)"
    using rw by simp
  have q0: "has_records sa \<longrightarrow> refused ?w0 ''Affiliates'' = None" using tabs by simp
  from pull_served [OF oka r0 q0, of ?c "ENDPOINT cfg ''AFFILIATES''" affiliates_headers "affiliate_row P"]
  obtain w1 where
    p1: "pullDataEnhanced ?c (ENDPOINT cfg ''AFFILIATES'') ''Affiliates'' affiliates_headers (affiliate_row P) ?w0
           = (Returned (length (records_of sa)), w1)"
    and r1: "responses w1 = script sr @ (script sc @ script sp @ rest)"
    and e1: "refused w1 = refused ?w0"
    and s1: "sheets w1 = (sheets ?w0)(''Affiliates'' := table_after sa affiliates_headers (affiliate_row P) (sheets ?w0 ''Affiliates''))"
    and u1: "urls_asked (trace w1) = urls_asked (trace ?w0)
               @ replicate (length (script sa)) (baseUrl ?c @ js_toString (ENDPOINT cfg ''AFFILIATES''))"
    by (elim exE conjE)
  have q1: "has_records sr \<longrightarrow> refused w1 ''Referrals'' = None" using tabs e1 by simp
  from pull_served [OF okr r1 q1, of ?c "ENDPOINT cfg ''REFERRALS''" referrals_headers "referral_row P"]
  obtain w2 where
    p2: "pullDataEnhanced ?c (ENDPOINT cfg ''REFERRALS'') ''Referrals'' referrals_headers (referral_row P) w1
           = (Returned (length (records_of sr)), w2)"
    and r2: "responses w2 = script sc @ (script sp @ rest)"
    and e2: "refused w2 = refused w1"
    and s2: "sheets w2 = (sheets w1)(''Referrals'' := table_after sr referrals_headers (referral_row P) (sheets w1 ''Referrals''))"
    and u2: "urls_asked (trace w2) = urls_asked (trace w1)
               @ replicate (length (script sr)) (baseUrl ?c @ js_toString (ENDPOINT cfg ''REFERRALS''))"
    by (elim exE conjE)
  have q2: "has_records sc \<longrightarrow> refused w2 ''Coupons'' = None" using tabs e1 e2 by simp
  from pull_served [OF okc r2 q2, of ?c "ENDPOINT cfg ''COUPONS''" coupons_headers "coupon_row P"]
  obtain w3 where
    p3: "pullDataEnhanced ?c (ENDPOINT cfg ''COUPONS'') ''Coupons'' coupons_headers (coupon_row P) w2
           = (Returned (length (records_of sc)), w3)"
    and r3: "responses w3 = script sp @ rest"
    and e3: "refused w3 = refused w2"
    and s3: "sheets w3 = (sheets w2)(''Coupons'' := table_after sc coupons_headers (coupon_row P) (sheets w2 ''Coupons''))"
    and u3: "urls_asked (trace w3) = urls_asked (trace w2)
               @ replicate (length (script sc)) (baseUrl ?c @ js_toString (ENDPOINT cfg ''COUPONS''))"
    by (elim exE conjE)
  have q3: "has_records sp \<longrightarrow> refused w3 ''Payments'' = None" using tabs e1 e2 e3 by simp
  from pull_served [OF okp r3 q3, of ?c "ENDPOINT cfg ''PAYMENTS''" payments_headers "payment_row P"]
  obtain w4 where
    p4: "pullDataEnhanced ?c (ENDPOINT cfg ''PAYMENTS'') ''Payments'' payments_headers (payment_row P) w3
           = (Returned (length (records_of sp)), w4)"
    and r4: "responses w4 = rest"
    and e4: "refused w4 = refused w3"
    and s4: "sheets w4 = (sheets w3)(''Payments'' := table_after sp payments_headers (payment_row P) (sheets w3 ''Payments''))"
    and u4: "urls_asked (trace w4) = urls_asked (trace w3)
               @ replicate (length (script sp)) (baseUrl ?c @ js_toString (ENDPOINT cfg ''PAYMENTS''))"
    by (elim exE conjE)
  let ?counts = "counts_of sa sr sc sp"
  have v: "validateConfig (stored_key w) (API_BASE_URL cfg) (ENDPOINTS cfg) = Inr True"
    using key base eps by (simp add: validateConfig_def)
  have run: "pullUpPromoteDataEnhanced P cfg w
              = (case addSummarySheet P ?counts w4 of
                   (Unanswered, w5) \<Rightarrow> (Unanswered, w5)
                 | (Thrown e, w5) \<Rightarrow> (Thrown e, w5)
                 | (Returned u, w5) \<Rightarrow> (Returned ?counts, w5))"
    unfolding counts_of_def
    using key v opn p1 p2 p3 p4
    by (simp add: pullUpPromoteDataEnhanced_def Let_def
          pullAffiliatesDataEnhanced_def pullReferralsDataEnhanced_def
          pullCouponsDataEnhanced_def pullPaymentsDataEnhanced_def)
  have ed: "refused w4 = refused w" using e1 e2 e3 e4 by simp
  have urls: "urls_asked (trace w4) = urls_asked (trace w)
               @ replicate (length (script sa)) (API_BASE_URL cfg @ js_toString (ENDPOINT cfg ''AFFILIATES''))
               @ replicate (length (script sr)) (API_BASE_URL cfg @ js_toString (ENDPOINT cfg ''REFERRALS''))
               @ replicate (length (script sc)) (API_BASE_URL cfg @ js_toString (ENDPOINT cfg ''COUPONS''))
               @ replicate (length (script sp)) (API_BASE_URL cfg @ js_toString (ENDPOINT cfg ''PAYMENTS''))"
    using u1 u2 u3 u4 b by simp
  have ta: "sheets w4 ''Affiliates'' = table_after sa affiliates_headers (affiliate_row P) (sheets w ''Affiliates'')"
    using s1 s2 s3 s4 by simp
  have tr: "sheets w4 ''Referrals'' = table_after sr referrals_headers (referral_row P) (sheets w ''Referrals'')"
    using s1 s2 s3 s4 by simp
  have tc: "sheets w4 ''Coupons'' = table_after sc coupons_headers (coupon_row P) (sheets w ''Coupons'')"
    using s1 s2 s3 s4 by simp
  have tp: "sheets w4 ''Payments'' = table_after sp payments_headers (payment_row P) (sheets w ''Payments'')"
    using s1 s2 s3 s4 by simp
  have su: "sheets w4 ''Summary'' = sheets w ''Summary''"
    using s1 s2 s3 s4 by simp
  show ?thesis
    using run r4 ed urls ta tr tc tp su
    by (intro exI [of _ w4]) (simp only: simp_thms)
qed

lemma run_served:
  assumes key: "truthy (stored_key w)" and base: "API_BASE_URL cfg \<noteq> []" and eps: "ENDPOINTS cfg \<noteq> []"
    and opn: "open_error w = None" and edits: "refused w = Map.empty"
    and oka: "ok_served sa" and okr: "ok_served sr" and okc: "ok_served sc" and okp: "ok_served sp"
    and rw: "responses w = script sa @ script sr @ script sc @ script sp @ rest"
  shows "\<exists>w'. pullUpPromoteDataEnhanced P cfg w = (Returned (counts_of sa sr sc sp), w')
          \<and> responses w' = rest
          \<and> urls_asked (trace w') = urls_asked (trace w)
               @ replicate (length (script sa)) (API_BASE_URL cfg @ js_toString (ENDPOINT cfg ''AFFILIATES''))
               @ replicate (length (script sr)) (API_BASE_URL cfg @ js_toString (ENDPOINT cfg ''REFERRALS''))
               @ replicate (length (script sc)) (API_BASE_URL cfg @ js_toString (ENDPOINT cfg ''COUPONS''))
               @ replicate (length (script sp)) (API_BASE_URL cfg @ js_toString (ENDPOINT cfg ''PAYMENTS''))
          \<and> sheets w' ''Affiliates'' = table_after sa affiliates_headers (affiliate_row P) (sheets w ''Affiliates'')
          \<and> sheets w' ''Referrals'' = table_after sr referrals_headers (referral_row P) (sheets w ''Referrals'')
          \<and> sheets w' ''Coupons'' = table_after sc coupons_headers (coupon_row P) (sheets w ''Coupons'')
          \<and> sheets w' ''Payments'' = table_after sp payments_headers (payment_row P) (sheets w ''Payments'')
          \<and> sheets w' ''Summary'' = Some (summaryData P (counts_of sa sr sc sp))"
proof -
  have tabs: "refused w ''Affiliates'' = None" "refused w ''Referrals'' = None"
              "refused w ''Coupons'' = None" "refused w ''Payments'' = None"
    using edits by simp_all
  from run_pulls_served [OF key base eps opn tabs oka okr okc okp rw, of P]
  obtain w4 where
    run: "pullUpPromoteDataEnhanced P cfg w
              = (case addSummarySheet P (counts_of sa sr sc sp) w4 of
                   (Unanswered, w5) \<Rightarrow> (Unanswered, w5)
                 | (Thrown e, w5) \<Rightarrow> (Thrown e, w5)
                 | (Returned u, w5) \<Rightarrow> (Returned (counts_of sa sr sc sp), w5))"
    and r4: "responses w4 = rest" and ed: "refused w4 = refused w"
    and urls: "urls_asked (trace w4) = urls_asked (trace w)
               @ replicate (length (script sa)) (API_BASE_URL cfg @ js_toString (ENDPOINT cfg ''AFFILIATES''))
               @ replicate (length (script sr)) (API_BASE_URL cfg @ js_toString (ENDPOINT cfg ''REFERRALS''))
               @ replicate (length (script sc)) (API_BASE_URL cfg @ js_toString (ENDPOINT cfg ''COUPONS''))
               @ replicate (length (script sp)) (API_BASE_URL cfg @ js_toString (ENDPOINT cfg ''PAYMENTS''))"
    and ta: "sheets w4 ''Affiliates'' = table_after sa affiliates_headers (affiliate_row P) (sheets w ''Affiliates'')"
    and tr: "sheets w4 ''Referrals'' = table_after sr referrals_headers (referral_row P) (sheets w ''Referrals'')"
    and tc: "sheets w4 ''Coupons'' = table_after sc coupons_headers (coupon_row P) (sheets w ''Coupons'')"
    and tp: "sheets w4 ''Payments'' = table_after sp payments_headers (payment_row P) (sheets w ''Payments'')"
    by (elim exE conjE)
  have q4: "refused w4 ''Summary'' = None" using ed edits by simp
  from addSummarySheet_written [OF q4, of P "counts_of sa sr sc sp"]
  obtain w' where
    sm: "addSummarySheet P (counts_of sa sr sc sp) w4 = (Returned (), w')"
    and s5: "sheets w' = (sheets w4)(''Summary'' \<mapsto> summaryData P (counts_of sa sr sc sp))"
    and r5: "responses w' = responses w4" and t5: "trace w' = trace w4"
    by (elim exE conjE)
  have run': "pullUpPromoteDataEnhanced P cfg w = (Returned (counts_of sa sr sc sp), w')"
    using run sm by simp
  have resp: "responses w' = rest" using r4 r5 by simp
  have urls': "urls_asked (trace w') = urls_asked (trace w)
               @ replicate (length (script sa)) (API_BASE_URL cfg @ js_toString (ENDPOINT cfg ''AFFILIATES''))
               @ replicate (length (script sr)) (API_BASE_URL cfg @ js_toString (ENDPOINT cfg ''REFERRALS''))
               @ replicate (length (script sc)) (API_BASE_URL cfg @ js_toString (ENDPOINT cfg ''COUPONS''))
               @ replicate (length (script sp)) (API_BASE_URL cfg @ js_toString (ENDPOINT cfg ''PAYMENTS''))"
    using urls t5 by simp
  have ta': "sheets w' ''Affiliates'' = table_after sa affiliates_headers (affiliate_row P) (sheets w ''Affiliates'')"
    using ta s5 by simp
  have tr': "sheets w' ''Referrals'' = table_after sr referrals_headers (referral_row P) (sheets w ''Referrals'')"
    using tr s5 by simp
  have tc': "sheets w' ''Coupons'' = table_after sc coupons_headers (coupon_row P) (sheets w ''Coupons'')"
    using tc s5 by simp
  have tp': "sheets w' ''Payments'' = table_after sp payments_headers (payment_row P) (sheets w ''Payments'')"
    using tp s5 by simp
  have su: "sheets w' ''Summary'' = Some (summaryData P (counts_of sa sr sc sp))"
    using s5 by simp
  show ?thesis
    using run' resp urls' ta' tr' tc' tp' su
    by (intro exI [of _ w']) (simp only: simp_thms)
qed

lemma sample_world_simps:
  "responses (sample_world rs) = rs" "trace (sample_world rs) = []"
  "stored_key (sample_world rs) = JStr ''k''" "sheets (sample_world rs) = Map.empty"
  "requestCount (sample_world rs) = 0"
  "refused (sample_world rs) = Map.empty" "open_error (sample_world rs) = None"
  by (simp_all add: sample_world_def)


lemma page_data_page_of: "page_data (page_of i K d) = d"
  by (simp add: page_data_def page_of_def)

lemma CONFIG_earlier_valid: "API_BASE_URL CONFIG_earlier \<noteq> []" "ENDPOINTS CONFIG_earlier \<noteq> []"
  by (simp_all add: CONFIG_earlier_def)






section \<open>Tables after a run\<close>










text \<open>
  C9. The summary is seven rows of two cells: the title, the time stamp, a blank row, the
  header and the counts of Affiliates, Referrals and Coupons. The count of Payments,
  which the run collects with the other three, has no row: after a run with the payments
  endpoint configured and two payments fetched, the Summary table ends with the row of
  Coupons, and the rows written do not depend on the payments count.
\<close>

theorem summary_omits_payments:
  "fst (pullUpPromoteDataEnhanced sample_platform CONFIG_earlier
          (sample_world [page_of 1 1 [rec 1], page_of 1 1 [rec 2], page_of 1 1 [rec 3],
                         page_of 1 1 [rec 4, rec 5]]))
     = Returned \<lparr>affiliates = 1, referrals = 1, coupons = 1, payments = 2\<rparr>
   \<and> sheets (snd (pullUpPromoteDataEnhanced sample_platform CONFIG_earlier
          (sample_world [page_of 1 1 [rec 1], page_of 1 1 [rec 2], page_of 1 1 [rec 3],
                         page_of 1 1 [rec 4, rec 5]]))) ''Summary''
     = Some [[JStr ''UpPromote Data Summary'', JStr ''''],
             [JStr ''Last Updated'', JStr ''11/3/2026, 9:00:00 AM''],
             [JStr '''', JStr ''''],
             [JStr ''Data Type'', JStr ''Count''],
             [JStr ''Affiliates'', JNum 1],
             [JStr ''Referrals'', JNum 1],
             [JStr ''Coupons'', JNum 1]]
   \<and> length (summaryData P d) = 7
   \<and> summaryData P (d\<lparr>payments := n\<rparr>) = summaryData P d"
proof -
  let ?w = "sample_world [page_of 1 1 [rec 1], page_of 1 1 [rec 2], page_of 1 1 [rec 3],
                         page_of 1 1 [rec 4, rec 5]]"
  have key: "truthy (stored_key ?w)" by (simp add: sample_world_simps)
  have opn: "open_error ?w = None" by (simp add: sample_world_simps)
  have edits: "refused ?w = Map.empty" by (simp add: sample_world_simps)
  have rw: "responses ?w = script (Pages [page_of 1 1 [rec 1]]) @ script (Pages [page_of 1 1 [rec 2]])
              @ script (Pages [page_of 1 1 [rec 3]]) @ script (Pages [page_of 1 1 [rec 4, rec 5]]) @ []"
    by (simp add: sample_world_simps)
  have o: "ok_served (Pages [page_of 1 1 [rec 1]])" "ok_served (Pages [page_of 1 1 [rec 2]])"
    "ok_served (Pages [page_of 1 1 [rec 3]])" "ok_served (Pages [page_of 1 1 [rec 4, rec 5]])"
    by (simp_all add: is_page_def page_of_def)
  have ab: "fst (pullUpPromoteDataEnhanced sample_platform CONFIG_earlier ?w)
     = Returned \<lparr>affiliates = 1, referrals = 1, coupons = 1, payments = 2\<rparr>
   \<and> sheets (snd (pullUpPromoteDataEnhanced sample_platform CONFIG_earlier ?w)) ''Summary''
     = Some [[JStr ''UpPromote Data Summary'', JStr ''''],
             [JStr ''Last Updated'', JStr ''11/3/2026, 9:00:00 AM''],
             [JStr '''', JStr ''''],
             [JStr ''Data Type'', JStr ''Count''],
             [JStr ''Affiliates'', JNum 1],
             [JStr ''Referrals'', JNum 1],
             [JStr ''Coupons'', JNum 1]]"
    using run_served [OF key CONFIG_earlier_valid opn edits o rw, of sample_platform]
    by (auto simp: counts_of_def page_data_page_of summaryData_def js_or_def sample_platform_def)
  have c: "length (summaryData P d) = 7" by (simp add: summaryData_def)
  have e: "summaryData P (d\<lparr>payments := n\<rparr>) = summaryData P d" by (simp add: summaryData_def)
  show ?thesis using ab c e by (simp only: simp_thms)
qed

end
